theory Spec2Isabelle
  imports Complex_Main
begin

section \<open>Modules and the models of the notebooks\<close>

text \<open>
  The notebooks build their classifiers from the module constructors of \<^verbatim>\<open>torch.nn\<close>.
  A module is recorded by its constructor and the arguments the notebook passes:
  \<^verbatim>\<open>nn.Linear(in, out)\<close>, \<^verbatim>\<open>nn.ReLU()\<close>, \<^verbatim>\<open>nn.LogSoftmax(dim=d)\<close> and
  \<^verbatim>\<open>nn.Dropout(p=p)\<close>. The loss modules are \<^verbatim>\<open>nn.CrossEntropyLoss()\<close> and
  \<^verbatim>\<open>nn.NLLLoss()\<close>.
\<close>

datatype module = Linear nat nat | ReLU | LogSoftmax nat | Dropout rat

datatype criterion = CrossEntropyLoss | NLLLoss

text \<open>
  Cell 5 of \<^verbatim>\<open>3_Training_Neural_Networks.ipynb\<close>:
  \<^verbatim>\<open>nn.Sequential(nn.Linear(784, 128), nn.ReLU(), nn.Linear(128, 64), nn.ReLU(), nn.Linear(64, 10))\<close>
  with \<^verbatim>\<open>nn.CrossEntropyLoss()\<close>.
\<close>

definition logits_model :: "module list" where
  "logits_model = [Linear 784 128, ReLU, Linear 128 64, ReLU, Linear 64 10]"

text \<open>
  Cells 7, 21 and 29 of the same notebook: the same chain with
  \<^verbatim>\<open>nn.LogSoftmax(dim=1)\<close> appended, each with \<^verbatim>\<open>nn.NLLLoss()\<close>.
\<close>

definition logsoftmax_model :: "module list" where
  "logsoftmax_model =
     [Linear 784 128, ReLU, Linear 128 64, ReLU, Linear 64 10, LogSoftmax 1]"

definition training_notebook_models :: "(module list \<times> criterion) list" where
  "training_notebook_models =
     [(logits_model, CrossEntropyLoss),
      (logsoftmax_model, NLLLoss),
      (logsoftmax_model, NLLLoss),
      (logsoftmax_model, NLLLoss)]"

text \<open>
  The width of a batch of row vectors after a module: a linear layer takes rows of its
  \<^verbatim>\<open>in_features\<close> entries to rows of \<^verbatim>\<open>out_features\<close> entries and rejects every
  other width (the framework raises); the element-wise modules keep the width, and so does
  the log-softmax along dimension 0 or 1 of the batch, the two dimensions a batch of rows
  has (the framework raises on any other).
\<close>

fun module_width :: "module \<Rightarrow> nat \<Rightarrow> nat option" where
  "module_width (Linear i o') d = (if d = i then Some o' else None)"
| "module_width ReLU d = Some d"
| "module_width (LogSoftmax k) d = (if k < 2 then Some d else None)"
| "module_width (Dropout p) d = Some d"

fun forward_width :: "module list \<Rightarrow> nat \<Rightarrow> nat option" where
  "forward_width [] d = Some d"
| "forward_width (m # ms) d =
     (case module_width m d of None \<Rightarrow> None | Some d' \<Rightarrow> forward_width ms d')"

fun is_dropout :: "module \<Rightarrow> bool" where
  "is_dropout (Dropout p) = True"
| "is_dropout m = False"

fun is_linear :: "module \<Rightarrow> bool" where
  "is_linear (Linear i o') = True"
| "is_linear m = False"

section \<open>Tensors, linear layers and the network class\<close>

text \<open>
  A tensor is its shape and its entries in row-major order. The entries are the
  framework's floating-point numbers; nothing here computes with them, so their type is
  a parameter.
\<close>

record 'a tensor =
  shape :: "nat list"
  entries :: "'a list"

text \<open>
  \<^verbatim>\<open>nn.Linear(in_features, out_features)\<close> as the notebook prints it
  (\<^verbatim>\<open>Linear(in_features=784, out_features=512, bias=True)\<close>) and as the error message of
  cell 10 shows its parameters: a weight of shape \<^verbatim>\<open>[out_features, in_features]\<close> and a
  bias of shape \<^verbatim>\<open>[out_features]\<close>.
\<close>

record 'a linear =
  in_features :: nat
  out_features :: nat
  weight :: "'a tensor"
  bias :: "'a tensor"

text \<open>
  The framework draws the initial entries of a parameter at random. The draw is a
  parameter of the model: \<open>init name shp\<close> are the entries given to the parameter called
  \<open>name\<close> of shape \<open>shp\<close>.
\<close>

type_synonym 'a initializer = "string \<Rightarrow> nat list \<Rightarrow> 'a list"

definition new_linear :: "'a initializer \<Rightarrow> string \<Rightarrow> nat \<Rightarrow> nat \<Rightarrow> 'a linear" where
  "new_linear init name i o' =
     \<lparr>in_features = i, out_features = o',
      weight = \<lparr>shape = [o', i], entries = init (name @ ''.weight'') [o', i]\<rparr>,
      bias = \<lparr>shape = [o'], entries = init (name @ ''.bias'') [o']\<rparr>\<rparr>"

text \<open>Python's \<^verbatim>\<open>str(i)\<close> of a list index, which names the children of a module list.\<close>

definition digit_char :: "nat \<Rightarrow> char" where
  "digit_char d = char_of (48 + d)"

fun string_of_nat :: "nat \<Rightarrow> string" where
  "string_of_nat n =
     (if n < 10 then [digit_char n]
      else string_of_nat (n div 10) @ [digit_char (n mod 10)])"

declare string_of_nat.simps [simp del]

text \<open>
  The lines of the \<^verbatim>\<open>RuntimeError\<close> that \<^verbatim>\<open>load_state_dict\<close> raises, as the traceback
  of cell 10 of the saving notebook shows them: the missing keys, the unexpected keys, and
  one size mismatch for each parameter with its shape in the checkpoint and its shape in
  the current model.
\<close>

datatype load_error =
    Missing_keys "string list"
  | Unexpected_keys "string list"
  | Size_mismatch string "nat list" "nat list"

datatype error =
    IndexError
  | KeyError string
  | TypeError
  | ValueError
  | FileNotFoundError string
  | ZeroDivisionError
  | RuntimeError "load_error list"

text \<open>
  Modelled from the spec: the class \<^verbatim>\<open>fc_model.Network\<close> (the file \<^verbatim>\<open>fc_model.py\<close> is
  not among the sources). The spec describes it as a sequence of linear layers with
  dropout between; the saving notebook prints an instance built by
  \<^verbatim>\<open>fc_model.Network(784, 10, [512, 256, 128])\<close> as a module list \<^verbatim>\<open>hidden_layers\<close> of
  \<^verbatim>\<open>Linear(784, 512)\<close>, \<^verbatim>\<open>Linear(512, 256)\<close>, \<^verbatim>\<open>Linear(256, 128)\<close>, a layer
  \<^verbatim>\<open>output\<close> = \<^verbatim>\<open>Linear(128, 10)\<close> and \<^verbatim>\<open>dropout\<close> = \<^verbatim>\<open>Dropout(p=0.5)\<close>, and the
  checkpoint cell reads \<^verbatim>\<open>each.out_features for each in model.hidden_layers\<close>.
  The first hidden layer reads the first entry of the list of hidden sizes, so an empty
  list has no model: the constructor fails on it. The field \<open>output_layer\<close> is the
  attribute \<^verbatim>\<open>output\<close>.
\<close>

record 'a network =
  hidden_layers :: "'a linear list"
  output_layer :: "'a linear"
  dropout :: rat

fun hidden_name :: "nat \<Rightarrow> string" where
  "hidden_name i = ''hidden_layers.'' @ string_of_nat i"

fun new_hidden :: "'a initializer \<Rightarrow> nat \<Rightarrow> nat \<Rightarrow> nat list \<Rightarrow> 'a linear list" where
  "new_hidden init i d [] = []"
| "new_hidden init i d (h # hs) =
     new_linear init (hidden_name i) d h # new_hidden init (Suc i) h hs"

definition Network ::
  "'a initializer \<Rightarrow> nat \<Rightarrow> nat \<Rightarrow> nat list \<Rightarrow> error + 'a network" where
  "Network init input_size output_size hidden =
     (if hidden = [] then Inl IndexError
      else Inr \<lparr>hidden_layers = new_hidden init 0 input_size hidden,
                output_layer = new_linear init ''output'' (last hidden) output_size,
                dropout = 1 / 2\<rparr>)"

text \<open>
  Modelled from the spec: the order in which \<^verbatim>\<open>fc_model.Network\<close> applies its modules
  (its \<^verbatim>\<open>forward\<close> is not among the sources). The spec has "a sequence of linear
  layers with dropout between a softmax-style objective": each hidden layer is followed
  by the dropout module, then comes the output layer, and the output is the log-softmax
  of each row, which the \<^verbatim>\<open>nn.NLLLoss()\<close> of cell 4 of the saving notebook takes. An
  element-wise activation between the layers is in neither the spec nor the printed
  model and is not part of this list.
\<close>

definition linear_module :: "'a linear \<Rightarrow> module" where
  "linear_module l = Linear (in_features l) (out_features l)"

definition network_modules :: "'a network \<Rightarrow> module list" where
  "network_modules m =
     concat (map (\<lambda>l. [linear_module l, Dropout (dropout m)]) (hidden_layers m))
       @ [linear_module (output_layer m), LogSoftmax 1]"

section \<open>The state dictionary\<close>

text \<open>
  \<^verbatim>\<open>model.state_dict()\<close> is the framework's ordered dictionary of the parameters of the
  model, each under the path of attribute names that leads to it. Cell 6 of the saving
  notebook prints its keys for \<^verbatim>\<open>fc_model.Network(784, 10, [512, 256, 128])\<close>:
  \<^verbatim>\<open>hidden_layers.0.weight\<close>, \<^verbatim>\<open>hidden_layers.0.bias\<close>, ..., \<^verbatim>\<open>output.weight\<close>,
  \<^verbatim>\<open>output.bias\<close>; the dropout module has no parameter.
\<close>

type_synonym 'a state_dict = "(string \<times> 'a tensor) list"

definition linear_state :: "string \<Rightarrow> 'a linear \<Rightarrow> 'a state_dict" where
  "linear_state name l = [(name @ ''.weight'', weight l), (name @ ''.bias'', bias l)]"

fun hidden_state :: "nat \<Rightarrow> 'a linear list \<Rightarrow> 'a state_dict" where
  "hidden_state i [] = []"
| "hidden_state i (l # ls) = linear_state (hidden_name i) l @ hidden_state (Suc i) ls"

definition state_dict :: "'a network \<Rightarrow> 'a state_dict" where
  "state_dict m =
     hidden_state 0 (hidden_layers m) @ linear_state ''output'' (output_layer m)"

text \<open>The two keys of hidden layer \<open>i\<close>, and the number a decimal string denotes.\<close>

definition weight_key :: "nat \<Rightarrow> string" where
  "weight_key i = hidden_name i @ ''.weight''"

definition bias_key :: "nat \<Rightarrow> string" where
  "bias_key i = hidden_name i @ ''.bias''"

definition nat_of_string :: "string \<Rightarrow> nat" where
  "nat_of_string cs = foldl (\<lambda>a c. 10 * a + (of_char c - 48)) 0 cs"

section \<open>Saving and loading\<close>

text \<open>
  The objects the saving notebook hands to \<^verbatim>\<open>torch.save\<close>: a state dictionary (cell 7)
  or a dictionary of integers, a list of integers and a state dictionary (cell 11); a
  tensor is what a state dictionary holds under a key. Sizes are natural numbers.
\<close>

datatype 'a pyval =
    PyInt nat
  | PyList "nat list"
  | PyTensor "'a tensor"
  | PyStateDict "'a state_dict"
  | PyDict "(string \<times> 'a pyval) list"

text \<open>
  Cell 11:
  \<^verbatim>\<open>checkpoint = {"input_size": 784, "output_size": 10,
     "hidden_layers": [each.out_features for each in model.hidden_layers],
     "state_dict": model.state_dict()}\<close>
\<close>

definition checkpoint :: "'a network \<Rightarrow> 'a pyval" where
  "checkpoint model =
     PyDict [(''input_size'', PyInt 784),
             (''output_size'', PyInt 10),
             (''hidden_layers'', PyList (map out_features (hidden_layers model))),
             (''state_dict'', PyStateDict (state_dict model))]"

text \<open>
  \<^verbatim>\<open>torch.save(obj, path)\<close> and \<^verbatim>\<open>torch.load(path)\<close>: the files are a map from paths
  to the objects stored in them; loading returns the object last saved at the path, as
  cells 7 and 8 show for the state dictionary.
\<close>

type_synonym 'a files = "string \<rightharpoonup> 'a pyval"

definition torch_save :: "'a files \<Rightarrow> 'a pyval \<Rightarrow> string \<Rightarrow> 'a files" where
  "torch_save fs obj path = fs(path \<mapsto> obj)"

definition torch_load :: "'a files \<Rightarrow> string \<Rightarrow> error + 'a pyval" where
  "torch_load fs path =
     (case fs path of None \<Rightarrow> Inl (FileNotFoundError path) | Some obj \<Rightarrow> Inr obj)"

text \<open>
  Subscription \<^verbatim>\<open>d[key]\<close> with a string: a dictionary and a state dictionary answer
  with the value under the key or raise \<^verbatim>\<open>KeyError\<close>; an integer and a list raise
  \<^verbatim>\<open>TypeError\<close>, a tensor \<^verbatim>\<open>IndexError\<close>. Then the kinds of value the constructor
  and the loader expect.
\<close>

fun getitem :: "'a pyval \<Rightarrow> string \<Rightarrow> error + 'a pyval" where
  "getitem (PyDict kvs) key =
     (case map_of kvs key of None \<Rightarrow> Inl (KeyError key) | Some v \<Rightarrow> Inr v)"
| "getitem (PyStateDict sd) key =
     (case map_of sd key of None \<Rightarrow> Inl (KeyError key) | Some t \<Rightarrow> Inr (PyTensor t))"
| "getitem (PyTensor t) key = Inl IndexError"
| "getitem v key = Inl TypeError"

fun as_int :: "'a pyval \<Rightarrow> error + nat" where
  "as_int (PyInt n) = Inr n"
| "as_int v = Inl TypeError"

fun as_list :: "'a pyval \<Rightarrow> error + nat list" where
  "as_list (PyList ns) = Inr ns"
| "as_list v = Inl TypeError"

fun as_state_dict :: "'a pyval \<Rightarrow> error + 'a state_dict" where
  "as_state_dict (PyStateDict sd) = Inr sd"
| "as_state_dict v = Inl TypeError"

text \<open>An exception ends the statements that follow it.\<close>

fun and_then :: "error + 'a \<Rightarrow> ('a \<Rightarrow> error + 'b) \<Rightarrow> error + 'b" where
  "and_then (Inl e) f = Inl e"
| "and_then (Inr x) f = f x"

text \<open>
  \<^verbatim>\<open>model.load_state_dict(state_dict)\<close> as the saving notebook records it. Cell 9 loads
  the dictionary of a model of the same architecture and answers
  \<^verbatim>\<open><All keys matched successfully>\<close>. Cell 10 loads it into a model of other layer sizes
  and raises a \<^verbatim>\<open>RuntimeError\<close> with one size mismatch for each parameter whose shape in
  the checkpoint is not its shape in the current model; the traceback shows that the
  missing keys are put in front of the messages and that the error is raised when there
  is any message. A parameter is loaded from the entry under its own key. Only the
  returned model of a call that does not raise is modelled. The notebook records no
  unexpected key: the model reports every key of the dictionary that names no parameter
  of the model, in the order of the dictionary; which of them a release of the framework
  reports, and in which order, is not recorded.
\<close>

definition size_mismatches :: "'a state_dict \<Rightarrow> 'a state_dict \<Rightarrow> load_error list" where
  "size_mismatches own sd =
     concat (map (\<lambda>(key, p).
       (case map_of sd key of
          None \<Rightarrow> []
        | Some t \<Rightarrow> if shape t \<noteq> shape p then [Size_mismatch key (shape t) (shape p)] else []))
       own)"

definition missing_keys :: "'a state_dict \<Rightarrow> 'a state_dict \<Rightarrow> string list" where
  "missing_keys own sd = filter (\<lambda>key. map_of sd key = None) (map fst own)"

definition unexpected_keys :: "'a state_dict \<Rightarrow> 'a state_dict \<Rightarrow> string list" where
  "unexpected_keys own sd = filter (\<lambda>key. map_of own key = None) (map fst sd)"

definition error_msgs :: "'a state_dict \<Rightarrow> 'a state_dict \<Rightarrow> load_error list" where
  "error_msgs own sd =
     (if missing_keys own sd \<noteq> [] then [Missing_keys (missing_keys own sd)] else [])
     @ (if unexpected_keys own sd \<noteq> [] then [Unexpected_keys (unexpected_keys own sd)] else [])
     @ size_mismatches own sd"

definition load_tensor :: "'a state_dict \<Rightarrow> string \<Rightarrow> 'a tensor \<Rightarrow> 'a tensor" where
  "load_tensor sd key p = (case map_of sd key of None \<Rightarrow> p | Some t \<Rightarrow> t)"

definition load_linear :: "'a state_dict \<Rightarrow> string \<Rightarrow> 'a linear \<Rightarrow> 'a linear" where
  "load_linear sd name l =
     l\<lparr>weight := load_tensor sd (name @ ''.weight'') (weight l),
       bias := load_tensor sd (name @ ''.bias'') (bias l)\<rparr>"

fun load_hidden :: "'a state_dict \<Rightarrow> nat \<Rightarrow> 'a linear list \<Rightarrow> 'a linear list" where
  "load_hidden sd i [] = []"
| "load_hidden sd i (l # ls) = load_linear sd (hidden_name i) l # load_hidden sd (Suc i) ls"

definition load_state_dict :: "'a network \<Rightarrow> 'a state_dict \<Rightarrow> error + 'a network" where
  "load_state_dict model sd =
     (if error_msgs (state_dict model) sd \<noteq> []
      then Inl (RuntimeError (error_msgs (state_dict model) sd))
      else Inr (model\<lparr>hidden_layers := load_hidden sd 0 (hidden_layers model),
                       output_layer := load_linear sd ''output'' (output_layer model)\<rparr>))"

text \<open>
  Cell 12:
  \<^verbatim>\<open>def load_checkpoint(filepath):
      checkpoint = torch.load(filepath)
      model = fc_model.Network(checkpoint["input_size"], checkpoint["output_size"],
                               checkpoint["hidden_layers"])
      model.load_state_dict(checkpoint["state_dict"])
      return model\<close>
  The files and the random draw of the constructor are arguments. The three
  subscriptions are evaluated, in order, before the constructor is called; the
  constructor then reads the first hidden size, so a value that is no list, or an empty
  list, fails before the two sizes are looked at.
\<close>

definition construct :: "'a initializer \<Rightarrow> 'a pyval \<Rightarrow> 'a pyval \<Rightarrow> 'a pyval \<Rightarrow> error + 'a network" where
  "construct init input_size output_size hidden_sizes =
     and_then (as_list hidden_sizes) (\<lambda>hidden.
     if hidden = [] then Inl IndexError
     else and_then (as_int input_size) (\<lambda>i.
          and_then (as_int output_size) (\<lambda>o'.
          Network init i o' hidden)))"

definition load_checkpoint :: "'a initializer \<Rightarrow> 'a files \<Rightarrow> string \<Rightarrow> error + 'a network" where
  "load_checkpoint init fs filepath =
     and_then (torch_load fs filepath) (\<lambda>checkpoint.
     and_then (getitem checkpoint ''input_size'') (\<lambda>input_size.
     and_then (getitem checkpoint ''output_size'') (\<lambda>output_size.
     and_then (getitem checkpoint ''hidden_layers'') (\<lambda>hidden.
     and_then (construct init input_size output_size hidden) (\<lambda>model.
     and_then (getitem checkpoint ''state_dict'') (\<lambda>sd.
     and_then (as_state_dict sd) (load_state_dict model)))))))"

text \<open>
  The architecture of a model built by \<^verbatim>\<open>fc_model.Network(input_size, output_size, hidden)\<close>:
  the sizes of its layers and the shapes of its parameters. Training changes the entries
  of the parameters and nothing of this.
\<close>

definition linear_ok :: "nat \<Rightarrow> nat \<Rightarrow> 'a linear \<Rightarrow> bool" where
  "linear_ok i o' l =
     (in_features l = i \<and> out_features l = o' \<and>
      shape (weight l) = [o', i] \<and> shape (bias l) = [o'])"

fun hidden_ok :: "nat \<Rightarrow> nat list \<Rightarrow> 'a linear list \<Rightarrow> bool" where
  "hidden_ok d [] [] = True"
| "hidden_ok d (h # hs) (l # ls) = (linear_ok d h l \<and> hidden_ok h hs ls)"
| "hidden_ok d hs ls = False"

definition has_architecture :: "nat \<Rightarrow> nat \<Rightarrow> nat list \<Rightarrow> 'a network \<Rightarrow> bool" where
  "has_architecture input_size output_size hidden m =
     (hidden \<noteq> [] \<and> hidden_ok input_size hidden (hidden_layers m) \<and>
      linear_ok (last hidden) output_size (output_layer m) \<and> dropout m = 1 / 2)"

text \<open>
  Files with nothing saved, two draws of the constructor (every entry zero, every entry
  one), and the model \<^verbatim>\<open>fc_model.Network(4, 2, [3])\<close> with all entries one.
\<close>

definition no_files :: "'a files" where
  "no_files = Map.empty"

definition zeros :: "nat initializer" where
  "zeros name shp = replicate (prod_list shp) 0"

definition ones :: "nat initializer" where
  "ones name shp = replicate (prod_list shp) 1"

definition small_model :: "nat network" where
  "small_model =
     \<lparr>hidden_layers = [new_linear ones ''hidden_layers.0'' 4 3],
      output_layer = new_linear ones ''output'' 3 2,
      dropout = 1 / 2\<rparr>"

text \<open>
  The models of the saving notebook: cell 4 builds
  \<^verbatim>\<open>fc_model.Network(784, 10, [512, 256, 128])\<close> and cell 10 builds
  \<^verbatim>\<open>fc_model.Network(784, 10, [400, 200, 100])\<close>; these are their lists of hidden sizes.
\<close>

definition saving_notebook_hidden :: "nat list list" where
  "saving_notebook_hidden = [512, 256, 128] # [400, 200, 100] # []"

text \<open>Cell 4 of the saving notebook: \<^verbatim>\<open>criterion = nn.NLLLoss()\<close>.\<close>

definition saving_notebook_criterion :: criterion where
  "saving_notebook_criterion = NLLLoss"

text \<open>
  The pairing of a model with its loss that the training notebook describes (cells 2 and
  6): \<^verbatim>\<open>nn.CrossEntropyLoss\<close> takes the raw scores of the last linear layer,
  \<^verbatim>\<open>nn.NLLLoss\<close> the output of a final \<^verbatim>\<open>nn.LogSoftmax(dim=1)\<close>.
\<close>

fun objective_matches :: "module list \<Rightarrow> criterion \<Rightarrow> bool" where
  "objective_matches ms CrossEntropyLoss = (ms \<noteq> [] \<and> is_linear (last ms))"
| "objective_matches ms NLLLoss = (ms \<noteq> [] \<and> last ms = LogSoftmax 1)"

text \<open>The keys of a dictionary, in order.\<close>

fun dict_keys :: "'a pyval \<Rightarrow> string list" where
  "dict_keys (PyDict kvs) = map fst kvs"
| "dict_keys v = []"

section \<open>The training loop\<close>

text \<open>
  The calls of the training loop into the framework are parameters of the model:
  \<^verbatim>\<open>images.view(images.shape[0], -1)\<close>, \<^verbatim>\<open>model(images)\<close> on the current parameters,
  \<^verbatim>\<open>criterion(output, labels)\<close>, the gradient of a loss tensor with respect to the
  parameters (what \<^verbatim>\<open>loss.backward()\<close> computes), the update of the parameters that
  \<^verbatim>\<open>optimizer.step()\<close> makes from their \<^verbatim>\<open>.grad\<close>, \<^verbatim>\<open>loss.item()\<close>, and the
  arithmetic of Python numbers on the running loss (the integer \<^verbatim>\<open>0\<close>, \<^verbatim>\<open>+=\<close>, and
  \<^verbatim>\<open>/\<close> by a positive length). \<open>set_to_none\<close> is the default of the keyword of
  \<^verbatim>\<open>zero_grad\<close>: whether it resets \<^verbatim>\<open>.grad\<close> to \<^verbatim>\<open>None\<close> or to zeros.
\<close>

record ('p, 'img, 'lab, 'out, 'loss, 'g, 'n) framework =
  view :: "'img \<Rightarrow> 'img"
  forward :: "'p \<Rightarrow> 'img \<Rightarrow> 'out"
  criterion :: "'out \<Rightarrow> 'lab \<Rightarrow> 'loss"
  gradient :: "'loss \<Rightarrow> 'g"
  step :: "'p \<Rightarrow> 'g option \<Rightarrow> 'p"
  item :: "'loss \<Rightarrow> 'n"
  num_zero :: "'n"
  num_add :: "'n \<Rightarrow> 'n \<Rightarrow> 'n"
  num_div :: "'n \<Rightarrow> nat \<Rightarrow> 'n"
  set_to_none :: bool

text \<open>
  The state the loop changes: the parameters of the model, their \<^verbatim>\<open>.grad\<close> (one value
  for all parameters), and the numbers printed so far. Cell 22 prints the \<^verbatim>\<open>.grad\<close> of
  a new model before any backward pass: \<^verbatim>\<open>None\<close>.
\<close>

record ('p, 'g, 'n) train_state =
  params :: 'p
  grad :: "'g option"
  printed :: "'n list"

definition new_state :: "'p \<Rightarrow> ('p, 'g, 'n) train_state" where
  "new_state p = \<lparr>params = p, grad = None, printed = []\<rparr>"

text \<open>
  \<^verbatim>\<open>optimizer.zero_grad()\<close>, \<^verbatim>\<open>loss.backward()\<close> and \<^verbatim>\<open>optimizer.step()\<close>. The
  notebook says of the backward pass (cell 25): "When you do multiple backwards passes
  with the same parameters, the gradients are accumulated."
\<close>

definition zero_grad ::
  "('p, 'img, 'lab, 'out, 'loss, 'g::monoid_add, 'n) framework \<Rightarrow>
   ('p, 'g, 'n) train_state \<Rightarrow> ('p, 'g, 'n) train_state" where
  "zero_grad fw st =
     st\<lparr>grad := (if set_to_none fw then None else map_option (\<lambda>g. 0) (grad st))\<rparr>"

definition backward ::
  "('p, 'img, 'lab, 'out, 'loss, 'g::monoid_add, 'n) framework \<Rightarrow> 'loss \<Rightarrow>
   ('p, 'g, 'n) train_state \<Rightarrow> ('p, 'g, 'n) train_state" where
  "backward fw loss st =
     st\<lparr>grad := Some (case grad st of None \<Rightarrow> gradient fw loss
                                    | Some g \<Rightarrow> g + gradient fw loss)\<rparr>"

definition optimizer_step ::
  "('p, 'img, 'lab, 'out, 'loss, 'g, 'n) framework \<Rightarrow>
   ('p, 'g, 'n) train_state \<Rightarrow> ('p, 'g, 'n) train_state" where
  "optimizer_step fw st = st\<lparr>params := step fw (params st) (grad st)\<rparr>"

text \<open>
  The data loader: \<open>iterate e\<close> are the minibatches that the iteration of epoch \<open>e\<close>
  yields (the loader of the notebook shuffles, so they differ from epoch to epoch), and
  \<open>len\<close> is \<^verbatim>\<open>len(trainloader)\<close>.
\<close>

record ('img, 'lab) loader =
  iterate :: "nat \<Rightarrow> ('img \<times> 'lab) list"
  len :: nat

text \<open>
  Cell 29, the body of \<^verbatim>\<open>for images, labels in trainloader\<close>:
  \<^verbatim>\<open>images = images.view(images.shape[0], -1)
  optimizer.zero_grad()
  output = model(images)
  loss = criterion(output, labels)
  loss.backward()
  optimizer.step()
  running_loss += loss.item()\<close>
\<close>

fun batches_loop ::
  "('p, 'img, 'lab, 'out, 'loss, 'g::monoid_add, 'n) framework \<Rightarrow>
   ('p, 'g, 'n) train_state \<times> 'n \<Rightarrow> ('img \<times> 'lab) list \<Rightarrow>
   ('p, 'g, 'n) train_state \<times> 'n" where
  "batches_loop fw (st, running_loss) [] = (st, running_loss)"
| "batches_loop fw (st, running_loss) ((images, labels) # rest) =
     (let images = view fw images;
          st = zero_grad fw st;
          output = forward fw (params st) images;
          loss = criterion fw output labels;
          st = backward fw loss st;
          st = optimizer_step fw st;
          running_loss = num_add fw running_loss (item fw loss)
      in batches_loop fw (st, running_loss) rest)"

text \<open>
  Cell 29, the loop over the epochs:
  \<^verbatim>\<open>for _ in range(epochs):
      running_loss = 0
      for images, labels in trainloader:
          ...
      else:
          print(f"Training loss: {running_loss/len(trainloader)}")\<close>
  The inner loop has no \<^verbatim>\<open>break\<close>, so its \<^verbatim>\<open>else\<close> runs after every epoch; the
  division raises when the length is zero. \<open>e\<close> counts the epochs done and \<open>n\<close> the
  epochs left.
\<close>

fun epochs_loop ::
  "('p, 'img, 'lab, 'out, 'loss, 'g::monoid_add, 'n) framework \<Rightarrow> ('img, 'lab) loader \<Rightarrow>
   nat \<Rightarrow> nat \<Rightarrow> ('p, 'g, 'n) train_state \<Rightarrow> error + ('p, 'g, 'n) train_state" where
  "epochs_loop fw trainloader e 0 st = Inr st"
| "epochs_loop fw trainloader e (Suc n) st =
     (case batches_loop fw (st, num_zero fw) (iterate trainloader e) of
        (st, running_loss) \<Rightarrow>
          if len trainloader = 0 then Inl ZeroDivisionError
          else epochs_loop fw trainloader (Suc e) n
                 (st\<lparr>printed := printed st @ [num_div fw running_loss (len trainloader)]\<rparr>))"

definition train ::
  "('p, 'img, 'lab, 'out, 'loss, 'g::monoid_add, 'n) framework \<Rightarrow> ('img, 'lab) loader \<Rightarrow>
   nat \<Rightarrow> ('p, 'g, 'n) train_state \<Rightarrow> error + ('p, 'g, 'n) train_state" where
  "train fw trainloader epochs st = epochs_loop fw trainloader 0 epochs st"

subsection \<open>The loop as the specification words it\<close>

text \<open>
  One cycle in the order of the specification: zero the gradients, flatten the images,
  forward pass, loss, backward pass, optimizer step, add the loss to the running loss.
\<close>

definition spec_cycle ::
  "('p, 'img, 'lab, 'out, 'loss, 'g::monoid_add, 'n) framework \<Rightarrow>
   ('p, 'g, 'n) train_state \<times> 'n \<Rightarrow> 'img \<times> 'lab \<Rightarrow> ('p, 'g, 'n) train_state \<times> 'n" where
  "spec_cycle fw acc batch =
     (let zeroed = zero_grad fw (fst acc);
          flat = view fw (fst batch);
          output = forward fw (params zeroed) flat;
          loss = criterion fw output (snd batch);
          stepped = optimizer_step fw (backward fw loss zeroed)
      in (stepped, num_add fw (snd acc) (item fw loss)))"

text \<open>
  One epoch: one cycle for each minibatch, then the report of the running loss divided by the
  number of minibatches. The training: one epoch after the other.
\<close>

definition spec_epoch ::
  "('p, 'img, 'lab, 'out, 'loss, 'g::monoid_add, 'n) framework \<Rightarrow> ('img \<times> 'lab) list \<Rightarrow>
   ('p, 'g, 'n) train_state \<Rightarrow> ('p, 'g, 'n) train_state" where
  "spec_epoch fw batches st =
     (let finished = foldl (spec_cycle fw) (st, num_zero fw) batches
      in (fst finished)\<lparr>printed :=
            printed (fst finished) @ [num_div fw (snd finished) (length batches)]\<rparr>)"

definition spec_train ::
  "('p, 'img, 'lab, 'out, 'loss, 'g::monoid_add, 'n) framework \<Rightarrow> ('img, 'lab) loader \<Rightarrow>
   nat \<Rightarrow> ('p, 'g, 'n) train_state \<Rightarrow> ('p, 'g, 'n) train_state" where
  "spec_train fw trainloader epochs st =
     foldl (\<lambda>st e. spec_epoch fw (iterate trainloader e) st) st [0..<epochs]"

text \<open>
  A cycle whose optimizer step consumes the gradient of the loss of the current minibatch
  and nothing else.
\<close>

definition fresh_cycle ::
  "('p, 'img, 'lab, 'out, 'loss, 'g::monoid_add, 'n) framework \<Rightarrow>
   ('p, 'g, 'n) train_state \<times> 'n \<Rightarrow> 'img \<times> 'lab \<Rightarrow> ('p, 'g, 'n) train_state \<times> 'n" where
  "fresh_cycle fw acc batch =
     (let loss = criterion fw (forward fw (params (fst acc)) (view fw (fst batch))) (snd batch);
          g = gradient fw loss
      in ((fst acc)\<lparr>params := step fw (params (fst acc)) (Some g), grad := Some g\<rparr>,
          num_add fw (snd acc) (item fw loss)))"

subsection \<open>A small instance\<close>

text \<open>
  An instance of the framework on which the loop can be run: a model with one integer
  weight \<open>p\<close> that takes \<open>x\<close> to \<open>p * x\<close>, the squared error against the label, every
  value carried together with its derivative in \<open>p\<close>, and gradient descent with learning
  rate one. The loader yields the same two minibatches in every epoch.
\<close>

definition toy_framework :: "(int, int, int, int \<times> int, int \<times> int, int, rat) framework" where
  "toy_framework =
     \<lparr>view = (\<lambda>x. x),
      forward = (\<lambda>p x. (p * x, x)),
      criterion = (\<lambda>out lab. ((fst out - lab) * (fst out - lab), 2 * (fst out - lab) * snd out)),
      gradient = snd,
      step = (\<lambda>p g. case g of None \<Rightarrow> p | Some d \<Rightarrow> p - d),
      item = (\<lambda>loss. of_int (fst loss)),
      num_zero = 0,
      num_add = (+),
      num_div = (\<lambda>a n. a / of_nat n),
      set_to_none = True\<rparr>"

definition toy_loader :: "(int, int) loader" where
  "toy_loader = \<lparr>iterate = (\<lambda>e. [(1, 2), (2, 3)]), len = 2\<rparr>"

subsection \<open>Flattening, and an instance on images\<close>

text \<open>
  \<^verbatim>\<open>images.view(images.shape[0], -1)\<close> on a tensor: \<^verbatim>\<open>images.shape[0]\<close> raises
  \<^verbatim>\<open>IndexError\<close> on a tensor without dimensions; the size \<^verbatim>\<open>-1\<close> is the number of
  entries of one row, which the framework cannot infer (a \<^verbatim>\<open>RuntimeError\<close>) when there
  is no row at all. The entries stay as they are.
\<close>

definition view_rows :: "'a tensor \<Rightarrow> error + 'a tensor" where
  "view_rows images =
     (case shape images of
        [] \<Rightarrow> Inl IndexError
      | n # rest \<Rightarrow>
          if n = 0 then Inl (RuntimeError [])
          else Inr \<lparr>shape = [n, prod_list rest], entries = entries images\<rparr>)"

text \<open>
  The small instance on batches of one image of 28 by 28 pixels, all of the same value;
  the model reads the first pixel. The loader yields the same two minibatches in every
  epoch. A loader without minibatches.
\<close>

definition pixel_batch :: "int \<Rightarrow> int tensor" where
  "pixel_batch v = \<lparr>shape = [1, 1, 28, 28], entries = replicate 784 v\<rparr>"

definition first_entry :: "int tensor \<Rightarrow> int" where
  "first_entry t = (case entries t of [] \<Rightarrow> 0 | v # vs \<Rightarrow> v)"

definition image_framework ::
  "(int, int tensor, int, int \<times> int, int \<times> int, int, rat) framework" where
  "image_framework =
     \<lparr>view = (\<lambda>t. case view_rows t of Inl e \<Rightarrow> t | Inr flat \<Rightarrow> flat),
      forward = (\<lambda>p x. (p * first_entry x, first_entry x)),
      criterion = (\<lambda>out lab. ((fst out - lab) * (fst out - lab), 2 * (fst out - lab) * snd out)),
      gradient = snd,
      step = (\<lambda>p g. case g of None \<Rightarrow> p | Some d \<Rightarrow> p - d),
      item = (\<lambda>loss. of_int (fst loss)),
      num_zero = 0,
      num_add = (+),
      num_div = (\<lambda>a n. a / of_nat n),
      set_to_none = True\<rparr>"

definition image_loader :: "(int tensor, int) loader" where
  "image_loader = \<lparr>iterate = (\<lambda>e. [(pixel_batch 1, 2), (pixel_batch 2, 3)]), len = 2\<rparr>"

definition empty_loader :: "(int, int) loader" where
  "empty_loader = \<lparr>iterate = (\<lambda>e. []), len = 0\<rparr>"

text \<open>
  The output that cell 5 of the saving notebook records for
  \<^verbatim>\<open>fc_model.train(model, trainloader, testloader, criterion, optimizer, epochs=2)\<close>: 46
  lines, each with a training loss, a test loss and a test accuracy; the first 23 begin
  \<^verbatim>\<open>Epoch: 1/2\<close> and the last 23 \<^verbatim>\<open>Epoch: 2/2\<close>. This is the epoch of each line.
\<close>

definition fc_model_train_report_epochs :: "nat list" where
  "fc_model_train_report_epochs = replicate 23 1 @ replicate 23 2"

section \<open>The two losses\<close>

text \<open>
  The losses of the training notebook over the real numbers, on a batch of rows of scores
  and one label for each row, as the framework documents them. The softmax of a row
  divides the exponential of each score by the sum of the exponentials of the row;
  \<^verbatim>\<open>nn.LogSoftmax(dim=1)\<close> subtracts from each score the logarithm of that sum. A loss
  whose batch and labels differ in length raises \<^verbatim>\<open>ValueError\<close>, a label that is no
  index of its row raises \<^verbatim>\<open>IndexError\<close>, and the mean over no rows is not a number.
  Rounding is not modelled.
\<close>

definition softmax :: "real list \<Rightarrow> real list" where
  "softmax row = map (\<lambda>x. exp x / sum_list (map exp row)) row"

definition log_softmax :: "real list \<Rightarrow> real list" where
  "log_softmax row = map (\<lambda>x. x - ln (sum_list (map exp row))) row"

datatype loss_value = Loss real | NaN

text \<open>
  The mean over the batch of a loss for each row and its label:
  \<^verbatim>\<open>nn.NLLLoss()\<close> takes the negated entry at the label of a row of log-probabilities,
  \<^verbatim>\<open>nn.CrossEntropyLoss()\<close> the negated logarithm of the softmax of a row of scores at
  the label.
\<close>

definition mean_loss ::
  "(real list \<Rightarrow> nat \<Rightarrow> real) \<Rightarrow> real list list \<Rightarrow> nat list \<Rightarrow> error + loss_value" where
  "mean_loss per_row rows labels =
     (if length rows \<noteq> length labels then Inl ValueError
      else if list_ex (\<lambda>(row, y). length row \<le> y) (zip rows labels) then Inl IndexError
      else if rows = [] then Inr NaN
      else Inr (Loss (sum_list (map (\<lambda>(row, y). per_row row y) (zip rows labels))
                        / of_nat (length rows))))"

definition NLLLoss_forward :: "real list list \<Rightarrow> nat list \<Rightarrow> error + loss_value" where
  "NLLLoss_forward log_probs labels = mean_loss (\<lambda>row y. - (row ! y)) log_probs labels"

definition CrossEntropyLoss_forward :: "real list list \<Rightarrow> nat list \<Rightarrow> error + loss_value" where
  "CrossEntropyLoss_forward scores labels =
     mean_loss (\<lambda>row y. - ln (softmax row ! y)) scores labels"

text \<open>\<^verbatim>\<open>nn.LogSoftmax(dim=1)\<close> appended to a network: the log-softmax of every row of its output.\<close>

definition LogSoftmax_forward :: "real list list \<Rightarrow> real list list" where
  "LogSoftmax_forward scores = map log_softmax scores"

section \<open>Names of parameters\<close>

lemma digit_value: "d < 10 \<Longrightarrow> of_char (digit_char d) = 48 + d"
  by (simp add: digit_char_def)

lemma nat_of_string_snoc:
  "nat_of_string (cs @ [c]) = 10 * nat_of_string cs + (of_char c - 48)"
  by (simp add: nat_of_string_def)

lemma nat_of_string_of_nat: "nat_of_string (string_of_nat n) = n"
proof (induction n rule: string_of_nat.induct)
  case (1 n)
  show ?case
  proof (cases "n < 10")
    case True
    then show ?thesis
      by (simp add: string_of_nat.simps [of n] nat_of_string_def digit_value)
  next
    case False
    then have "nat_of_string (string_of_nat n)
               = 10 * nat_of_string (string_of_nat (n div 10)) + (of_char (digit_char (n mod 10)) - 48)"
      by (simp add: string_of_nat.simps [of n] nat_of_string_snoc)
    also have "\<dots> = 10 * (n div 10) + n mod 10"
      using 1 False by (simp add: digit_value)
    finally show ?thesis by simp
  qed
qed

lemma string_of_nat_eq [simp]: "string_of_nat i = string_of_nat j \<longleftrightarrow> i = j"
  by (metis nat_of_string_of_nat)

lemma weight_key_eq [simp]: "weight_key i = weight_key j \<longleftrightarrow> i = j"
  by (simp add: weight_key_def)

lemma bias_key_eq [simp]: "bias_key i = bias_key j \<longleftrightarrow> i = j"
  by (simp add: bias_key_def)

lemma weight_key_not_bias_key [simp]: "weight_key i \<noteq> bias_key j" "bias_key j \<noteq> weight_key i"
proof -
  have "last (weight_key i) = CHR ''t''" "last (bias_key j) = CHR ''s''"
    by (simp_all add: weight_key_def bias_key_def)
  then show "weight_key i \<noteq> bias_key j" "bias_key j \<noteq> weight_key i"
    by auto
qed

lemma output_key_not_hidden [simp]:
  "weight_key i \<noteq> ''output.weight''" "weight_key i \<noteq> ''output.bias''"
  "bias_key i \<noteq> ''output.weight''" "bias_key i \<noteq> ''output.bias''"
  "''output.weight'' \<noteq> weight_key i" "''output.bias'' \<noteq> weight_key i"
  "''output.weight'' \<noteq> bias_key i" "''output.bias'' \<noteq> bias_key i"
  by (simp_all add: weight_key_def bias_key_def)

lemma hidden_state_Cons:
  "hidden_state i (l # ls) =
     (weight_key i, weight l) # (bias_key i, bias l) # hidden_state (Suc i) ls"
  by (simp add: linear_state_def weight_key_def bias_key_def)

lemma hidden_state_keys:
  "map fst (hidden_state i ls) =
     concat (map (\<lambda>j. [weight_key j, bias_key j]) [i..<i + length ls])"
proof (induction ls arbitrary: i)
  case Nil
  show ?case by simp
next
  case (Cons l ls)
  have "[i..<i + length (l # ls)] = i # [Suc i..<Suc i + length ls]"
    by (simp add: upt_rec)
  then show ?case
    by (simp add: hidden_state_Cons Cons.IH del: hidden_state.simps)
qed

lemma hidden_state_key_cases:
  "k \<in> fst ` set (hidden_state i ls) \<Longrightarrow>
     \<exists>j. i \<le> j \<and> j < i + length ls \<and> (k = weight_key j \<or> k = bias_key j)"
proof -
  assume "k \<in> fst ` set (hidden_state i ls)"
  then have "k \<in> set (map fst (hidden_state i ls))" by simp
  then show ?thesis
    unfolding hidden_state_keys by auto
qed

lemma hidden_state_distinct: "distinct (map fst (hidden_state i ls))"
proof (induction ls arbitrary: i)
  case Nil
  show ?case by simp
next
  case (Cons l ls)
  have "weight_key i \<notin> fst ` set (hidden_state (Suc i) ls)"
       "bias_key i \<notin> fst ` set (hidden_state (Suc i) ls)"
    using hidden_state_key_cases [of _ "Suc i" ls] by fastforce+
  then show ?case
    by (simp add: hidden_state_Cons Cons.IH del: hidden_state.simps)
qed

lemma state_dict_keys:
  "map fst (state_dict m) =
     concat (map (\<lambda>j. [weight_key j, bias_key j]) [0..<length (hidden_layers m)])
       @ [''output.weight'', ''output.bias'']"
  by (simp add: state_dict_def hidden_state_keys linear_state_def)

lemma state_dict_distinct: "distinct (map fst (state_dict m))"
proof -
  have "''output.weight'' \<notin> fst ` set (hidden_state 0 (hidden_layers m))"
       "''output.bias'' \<notin> fst ` set (hidden_state 0 (hidden_layers m))"
    using hidden_state_key_cases [of _ 0 "hidden_layers m"] by fastforce+
  then show ?thesis
    using hidden_state_distinct [of 0 "hidden_layers m"]
    by (auto simp: state_dict_def linear_state_def)
qed

lemma state_dict_values:
  "map snd (state_dict m) =
     concat (map (\<lambda>l. [weight l, bias l]) (hidden_layers m))
       @ [weight (output_layer m), bias (output_layer m)]"
proof -
  have "map snd (hidden_state i ls) = concat (map (\<lambda>l. [weight l, bias l]) ls)" for i and ls :: "'a linear list"
    by (induction ls arbitrary: i) (simp_all add: linear_state_def)
  then show ?thesis
    by (simp add: state_dict_def linear_state_def)
qed

section \<open>Loading a state dictionary\<close>

lemma map_of_hidden_state:
  "j < length ls \<Longrightarrow>
     map_of (hidden_state i ls @ rest) (weight_key (i + j)) = Some (weight (ls ! j)) \<and>
     map_of (hidden_state i ls @ rest) (bias_key (i + j)) = Some (bias (ls ! j))"
proof (induction ls arbitrary: i j)
  case Nil
  then show ?case by simp
next
  case (Cons l ls)
  show ?case
  proof (cases j)
    case 0
    then show ?thesis
      by (simp add: hidden_state_Cons del: hidden_state.simps)
  next
    case (Suc j')
    then have "j' < length ls" using Cons.prems by simp
    from Cons.IH [OF this, of "Suc i"] show ?thesis
      using Suc by (simp add: hidden_state_Cons del: hidden_state.simps)
  qed
qed

lemma map_of_state_dict_hidden:
  "j < length (hidden_layers m) \<Longrightarrow>
     map_of (state_dict m) (weight_key j) = Some (weight (hidden_layers m ! j)) \<and>
     map_of (state_dict m) (bias_key j) = Some (bias (hidden_layers m ! j))"
  using map_of_hidden_state [of j "hidden_layers m" 0] by (simp add: state_dict_def)

lemma map_of_skip_hidden:
  "k \<notin> fst ` set (hidden_state i ls) \<Longrightarrow> map_of (hidden_state i ls @ rest) k = map_of rest k"
  by (simp add: map_add_def map_of_eq_None_iff split: option.splits)
     (metis map_of_eq_None_iff option.distinct(1))

lemma map_of_state_dict_output:
  "map_of (state_dict m) ''output.weight'' = Some (weight (output_layer m)) \<and>
   map_of (state_dict m) ''output.bias'' = Some (bias (output_layer m))"
proof -
  let ?hs = "hidden_state 0 (hidden_layers m)"
  let ?out = "linear_state ''output'' (output_layer m)"
  have w: "''output.weight'' \<notin> fst ` set ?hs"
    using hidden_state_key_cases [of _ 0 "hidden_layers m"] by fastforce
  have b: "''output.bias'' \<notin> fst ` set ?hs"
    using hidden_state_key_cases [of _ 0 "hidden_layers m"] by fastforce
  have "map_of (?hs @ ?out) ''output.weight'' = map_of ?out ''output.weight''"
    using w by (rule map_of_skip_hidden)
  moreover have "map_of (?hs @ ?out) ''output.bias'' = map_of ?out ''output.bias''"
    using b by (rule map_of_skip_hidden)
  ultimately show ?thesis
    by (simp add: state_dict_def linear_state_def)
qed

lemma linear_eqI:
  "in_features a = in_features b \<Longrightarrow> out_features a = out_features b \<Longrightarrow>
   weight a = weight b \<Longrightarrow> bias a = bias b \<Longrightarrow> a = (b :: 'a linear)"
  by simp

lemma load_new_linear:
  "linear_ok i o' l \<Longrightarrow> map_of sd (name @ ''.weight'') = Some (weight l) \<Longrightarrow>
   map_of sd (name @ ''.bias'') = Some (bias l) \<Longrightarrow>
   load_linear sd name (new_linear init name i o') = l"
  by (rule linear_eqI) (simp_all add: load_linear_def load_tensor_def new_linear_def linear_ok_def)

lemma hidden_ok_length: "hidden_ok d hs ls \<Longrightarrow> length ls = length hs"
  by (induction d hs ls rule: hidden_ok.induct) simp_all

lemma hidden_ok_out_features: "hidden_ok d hs ls \<Longrightarrow> map out_features ls = hs"
  by (induction d hs ls rule: hidden_ok.induct) (simp_all add: linear_ok_def)

lemma load_new_hidden:
  "hidden_ok d hs ls \<Longrightarrow>
   (\<And>j. j < length ls \<Longrightarrow>
      map_of sd (weight_key (i + j)) = Some (weight (ls ! j)) \<and>
      map_of sd (bias_key (i + j)) = Some (bias (ls ! j))) \<Longrightarrow>
   load_hidden sd i (new_hidden init i d hs) = ls"
proof (induction d hs ls arbitrary: i rule: hidden_ok.induct)
  case (1 d)
  show ?case by simp
next
  case (2 d h hs l ls)
  have ok: "linear_ok d h l" "hidden_ok h hs ls" using "2.prems"(1) by simp_all
  have head: "map_of sd (hidden_name i @ ''.weight'') = Some (weight l)"
             "map_of sd (hidden_name i @ ''.bias'') = Some (bias l)"
    using "2.prems"(2) [of 0] by (simp_all add: weight_key_def bias_key_def)
  have tail: "map_of sd (weight_key (Suc i + j)) = Some (weight (ls ! j)) \<and>
              map_of sd (bias_key (Suc i + j)) = Some (bias (ls ! j))" if "j < length ls" for j
    using "2.prems"(2) [of "Suc j"] that by simp
  have "load_hidden sd (Suc i) (new_hidden init (Suc i) h hs) = ls"
    using "2.IH" [OF ok(2) tail] by simp
  moreover have "load_linear sd (hidden_name i) (new_linear init (hidden_name i) d h) = l"
    using load_new_linear [OF ok(1) head] .
  ultimately show ?case by (simp del: hidden_name.simps)
qed simp_all

lemma new_hidden_ok: "hidden_ok d hs (new_hidden init i d hs)"
  by (induction hs arbitrary: i d) (simp_all add: linear_ok_def new_linear_def)

lemma Network_has_architecture:
  "Network init input_size output_size hidden = Inr m \<Longrightarrow>
     has_architecture input_size output_size hidden m"
  by (auto simp: Network_def has_architecture_def new_hidden_ok linear_ok_def new_linear_def
      split: if_splits)

text \<open>Two dictionaries with the same distinct keys in the same order.\<close>

lemma aligned_lookup:
  "map fst own = map fst sd \<Longrightarrow> distinct (map fst sd) \<Longrightarrow> n < length own \<Longrightarrow>
     map_of sd (fst (own ! n)) = Some (snd (sd ! n))"
proof -
  assume k: "map fst own = map fst sd" and d: "distinct (map fst sd)" and n: "n < length own"
  have len: "length own = length sd" using k by (metis length_map)
  have "fst (own ! n) = fst (sd ! n)" using k n len by (metis nth_map)
  moreover have "sd ! n \<in> set sd" using n len by simp
  ultimately show ?thesis using d by (metis map_of_is_SomeI prod.collapse)
qed

lemma aligned_key_sets: "map fst own = map fst sd \<Longrightarrow> fst ` set own = fst ` set sd"
  by (metis list.set_map)

lemma aligned_no_missing_keys:
  assumes "map fst own = map fst sd"
  shows "missing_keys own sd = []"
proof -
  have "fst ` set own = fst ` set sd" using assms by (rule aligned_key_sets)
  then have "map_of sd key \<noteq> None" if "key \<in> fst ` set own" for key
    using that by (simp add: map_of_eq_None_iff)
  then show ?thesis
    by (simp add: missing_keys_def filter_empty_conv)
qed

lemma aligned_no_unexpected_keys:
  assumes "map fst own = map fst sd"
  shows "unexpected_keys own sd = []"
proof -
  have "fst ` set own = fst ` set sd" using assms by (rule aligned_key_sets)
  then have "map_of own key \<noteq> None" if "key \<in> fst ` set sd" for key
    using that by (simp add: map_of_eq_None_iff)
  then show ?thesis
    by (simp add: unexpected_keys_def filter_empty_conv)
qed

lemma aligned_no_size_mismatches:
  assumes "map fst own = map fst sd" "distinct (map fst sd)"
    and "map (shape \<circ> snd) own = map (shape \<circ> snd) sd"
  shows "size_mismatches own sd = []"
proof -
  have len: "length own = length sd" using assms(1) by (metis length_map)
  have "(case map_of sd key of None \<Rightarrow> [] | Some t \<Rightarrow>
          if shape t \<noteq> shape p then [Size_mismatch key (shape t) (shape p)] else []) = []"
    if "(key, p) \<in> set own" for key p
  proof -
    from that obtain n where n: "n < length own" "own ! n = (key, p)"
      by (auto simp: in_set_conv_nth)
    have "map_of sd key = Some (snd (sd ! n))"
      using aligned_lookup [OF assms(1,2) n(1)] n(2) by simp
    moreover have "shape (snd (sd ! n)) = shape p"
      using assms(3) n len by (metis comp_apply nth_map snd_conv)
    ultimately show ?thesis by simp
  qed
  then show ?thesis
    by (auto simp: size_mismatches_def)
qed

section \<open>The checkpoint\<close>

lemma network_eqI:
  "hidden_layers a = hidden_layers b \<Longrightarrow> output_layer a = output_layer b \<Longrightarrow>
   dropout a = dropout b \<Longrightarrow> a = (b :: 'a network)"
  by simp

lemma hidden_ok_shapes:
  "hidden_ok d hs ls \<Longrightarrow> hidden_ok d hs ls' \<Longrightarrow>
     map (\<lambda>l. [shape (weight l), shape (bias l)]) ls
       = map (\<lambda>l. [shape (weight l), shape (bias l)]) ls'"
proof (induction d hs ls arbitrary: ls' rule: hidden_ok.induct)
  case (1 d)
  then show ?case by (cases ls') simp_all
next
  case (2 d h hs l ls)
  then show ?case by (cases ls') (simp_all add: linear_ok_def)
qed simp_all

lemma state_dict_shapes:
  "map (shape \<circ> snd) (state_dict m) =
     concat (map (\<lambda>l. [shape (weight l), shape (bias l)]) (hidden_layers m))
       @ [shape (weight (output_layer m)), shape (bias (output_layer m))]"
proof -
  have "map (shape \<circ> snd) (hidden_state i ls)
          = concat (map (\<lambda>l. [shape (weight l), shape (bias l)]) ls)"
    for i and ls :: "'a linear list"
    by (induction ls arbitrary: i) (simp_all add: linear_state_def)
  then show ?thesis
    by (simp add: state_dict_def linear_state_def)
qed

lemma same_architecture_shapes:
  assumes "has_architecture i o' hs a" "has_architecture i o' hs b"
  shows "map (shape \<circ> snd) (state_dict a) = map (shape \<circ> snd) (state_dict b)"
proof -
  have "hidden_ok i hs (hidden_layers a)" "hidden_ok i hs (hidden_layers b)"
    using assms by (simp_all add: has_architecture_def)
  then have "map (\<lambda>l. [shape (weight l), shape (bias l)]) (hidden_layers a)
          = map (\<lambda>l. [shape (weight l), shape (bias l)]) (hidden_layers b)"
    by (rule hidden_ok_shapes)
  moreover have "shape (weight (output_layer a)) = shape (weight (output_layer b))"
                "shape (bias (output_layer a)) = shape (bias (output_layer b))"
    using assms by (simp_all add: has_architecture_def linear_ok_def)
  ultimately show ?thesis
    by (simp only: state_dict_shapes)
qed

lemma same_architecture_keys:
  assumes "has_architecture i o' hs a" "has_architecture i o' hs b"
  shows "map fst (state_dict a) = map fst (state_dict b)"
proof -
  have "hidden_ok i hs (hidden_layers a)" "hidden_ok i hs (hidden_layers b)"
    using assms by (simp_all add: has_architecture_def)
  then have "length (hidden_layers a) = length (hidden_layers b)"
    by (simp add: hidden_ok_length)
  then show ?thesis by (simp add: state_dict_keys)
qed

lemma same_architecture_no_errors:
  assumes "has_architecture i o' hs a" "has_architecture i o' hs b"
  shows "error_msgs (state_dict a) (state_dict b) = []"
  using same_architecture_keys [OF assms] same_architecture_shapes [OF assms]
    state_dict_distinct [of b]
  by (simp add: error_msgs_def aligned_no_missing_keys aligned_no_unexpected_keys
      aligned_no_size_mismatches)

lemma load_into_new_network:
  assumes "has_architecture i o' hs m"
  shows "Network init i o' hs = Inr m0 \<Longrightarrow> load_state_dict m0 (state_dict m) = Inr m"
proof -
  assume built: "Network init i o' hs = Inr m0"
  then have m0: "m0 = \<lparr>hidden_layers = new_hidden init 0 i hs,
                       output_layer = new_linear init ''output'' (last hs) o',
                       dropout = 1 / 2\<rparr>"
    by (auto simp: Network_def split: if_splits)
  have arch0: "has_architecture i o' hs m0"
    using built by (rule Network_has_architecture)
  have no_errors: "error_msgs (state_dict m0) (state_dict m) = []"
    using arch0 assms by (rule same_architecture_no_errors)
  have hid: "load_hidden (state_dict m) 0 (new_hidden init 0 i hs) = hidden_layers m"
  proof (rule load_new_hidden)
    show "hidden_ok i hs (hidden_layers m)"
      using assms by (simp add: has_architecture_def)
    show "map_of (state_dict m) (weight_key (0 + j)) = Some (weight (hidden_layers m ! j)) \<and>
          map_of (state_dict m) (bias_key (0 + j)) = Some (bias (hidden_layers m ! j))"
      if "j < length (hidden_layers m)" for j
      using map_of_state_dict_hidden [OF that] by simp
  qed
  have out: "load_linear (state_dict m) ''output'' (new_linear init ''output'' (last hs) o')
               = output_layer m"
  proof (rule load_new_linear)
    show "linear_ok (last hs) o' (output_layer m)"
      using assms by (simp add: has_architecture_def)
    show "map_of (state_dict m) (''output'' @ ''.weight'') = Some (weight (output_layer m))"
      using map_of_state_dict_output [of m] by simp
    show "map_of (state_dict m) (''output'' @ ''.bias'') = Some (bias (output_layer m))"
      using map_of_state_dict_output [of m] by simp
  qed
  have drop: "dropout m = 1 / 2"
    using assms by (simp add: has_architecture_def)
  have "m0\<lparr>hidden_layers := load_hidden (state_dict m) 0 (hidden_layers m0),
           output_layer := load_linear (state_dict m) ''output'' (output_layer m0)\<rparr> = m"
    by (rule network_eqI) (simp_all add: m0 hid out drop)
  then show ?thesis
    using no_errors by (simp add: load_state_dict_def)
qed

lemma load_saved_checkpoint:
  "load_checkpoint init (torch_save fs (checkpoint m) path) path =
     and_then (Network init 784 10 (map out_features (hidden_layers m)))
       (\<lambda>model. load_state_dict model (state_dict m))"
  by (simp add: load_checkpoint_def construct_def torch_save_def torch_load_def checkpoint_def
      Network_def)

lemma load_into_saved:
  assumes "has_architecture 784 10 hidden m"
  shows "load_checkpoint init (torch_save fs (checkpoint m) path) path = Inr m"
proof -
  have "hidden_ok 784 hidden (hidden_layers m)"
    using assms by (simp add: has_architecture_def)
  then have hs: "map out_features (hidden_layers m) = hidden"
    by (rule hidden_ok_out_features)
  have "hidden \<noteq> []"
    using assms by (simp add: has_architecture_def)
  then obtain m0 :: "'a network" where built: "Network init 784 10 hidden = Inr m0"
    by (simp add: Network_def)
  have "load_state_dict m0 (state_dict m) = Inr m"
    using assms built by (rule load_into_new_network)
  then show ?thesis
    by (simp add: load_saved_checkpoint hs built)
qed

text \<open>
  C1, as amended. For every model with the architecture of
  \<^verbatim>\<open>fc_model.Network(784, 10, hidden)\<close>, whatever its parameters hold, saving the
  checkpoint dictionary of cell 11 to a file and calling \<^verbatim>\<open>load_checkpoint\<close> on that
  file returns a model equal to the saved one: the same layer sizes and the same
  parameter tensors. The sizes 784 and 10 are the ones the checkpoint cell writes.
\<close>

theorem checkpoint_round_trip:
  assumes "has_architecture 784 10 hidden m"
  shows "load_checkpoint init (torch_save fs (checkpoint m) path) path = Inr m"
  using assms by (rule load_into_saved)

lemma string_of_nat_0: "string_of_nat 0 = ''0''"
  by code_simp

lemma small_model_built: "Network ones 4 2 [3] = Inr small_model"
  by (simp add: Network_def small_model_def string_of_nat_0)

text \<open>
  A model of hidden sizes \<^verbatim>\<open>[3]\<close> whose entries are all one comes back from its checkpoint,
  although the constructor draws zeros when \<^verbatim>\<open>load_checkpoint\<close> rebuilds it.
\<close>

theorem checkpoint_round_trip_witness:
  "has_architecture 784 10 [3] (projr (Network ones 784 10 [3])) \<and>
   load_checkpoint zeros
       (torch_save no_files (checkpoint (projr (Network ones 784 10 [3]))) ''checkpoint.pth'')
       ''checkpoint.pth''
     = Inr (projr (Network ones 784 10 [3]))"
proof -
  have arch: "has_architecture 784 10 [3] (projr (Network ones 784 10 [3]))"
    by (simp add: Network_def has_architecture_def linear_ok_def new_linear_def)
  show ?thesis
    using arch checkpoint_round_trip [OF arch, of zeros no_files "''checkpoint.pth''"]
    by simp
qed

text \<open>
  C1, as stated for every model, fails on \<^verbatim>\<open>fc_model.Network(4, 2, [3])\<close>: its checkpoint
  says 784 and 10, \<^verbatim>\<open>load_checkpoint\<close> rebuilds \<^verbatim>\<open>fc_model.Network(784, 10, [3])\<close>, and
  loading the saved parameters into it raises.
\<close>

theorem checkpoint_round_trip_counterexample:
  "Network ones 4 2 [3] = Inr small_model \<and>
   load_checkpoint zeros
       (torch_save no_files (checkpoint small_model) ''checkpoint.pth'') ''checkpoint.pth''
     = Inl (RuntimeError
         [Size_mismatch ''hidden_layers.0.weight'' [3, 4] [3, 784],
          Size_mismatch ''output.weight'' [2, 3] [10, 3],
          Size_mismatch ''output.bias'' [2] [10]])"
proof -
  have "error_msgs
          (state_dict \<lparr>hidden_layers = new_hidden zeros 0 784 [3],
                       output_layer = new_linear zeros ''output'' 3 10, dropout = 1 / 2\<rparr>)
          (state_dict small_model)
        = [Size_mismatch ''hidden_layers.0.weight'' [3, 4] [3, 784],
           Size_mismatch ''output.weight'' [2, 3] [10, 3],
           Size_mismatch ''output.bias'' [2] [10]]"
    by (simp add: error_msgs_def missing_keys_def unexpected_keys_def size_mismatches_def
        state_dict_def linear_state_def new_linear_def small_model_def string_of_nat_0)
  then have "load_checkpoint zeros
       (torch_save no_files (checkpoint small_model) ''checkpoint.pth'') ''checkpoint.pth''
     = Inl (RuntimeError
         [Size_mismatch ''hidden_layers.0.weight'' [3, 4] [3, 784],
          Size_mismatch ''output.weight'' [2, 3] [10, 3],
          Size_mismatch ''output.bias'' [2] [10]])"
    by (simp add: load_saved_checkpoint small_model_def Network_def load_state_dict_def
        new_linear_def)
  then show ?thesis
    using small_model_built by simp
qed

text \<open>
  C5. The checkpoint dictionary has exactly the keys \<^verbatim>\<open>input_size\<close>, \<^verbatim>\<open>output_size\<close>,
  \<^verbatim>\<open>hidden_layers\<close> and \<^verbatim>\<open>state_dict\<close>; under \<^verbatim>\<open>hidden_layers\<close> it holds the output
  size of each hidden layer in order and under \<^verbatim>\<open>state_dict\<close> the state dictionary of
  the model. The keys of the state dictionary are exactly \<^verbatim>\<open>hidden_layers.<i>.weight\<close>
  and \<^verbatim>\<open>hidden_layers.<i>.bias\<close> for each index \<open>i\<close> of a hidden layer, then
  \<^verbatim>\<open>output.weight\<close> and \<^verbatim>\<open>output.bias\<close>; no key occurs twice, and the values are the
  weight and bias tensors of the layers in the same order.
\<close>

theorem checkpoint_contents:
  "dict_keys (checkpoint m) = [''input_size'', ''output_size'', ''hidden_layers'', ''state_dict''] \<and>
   getitem (checkpoint m) ''input_size'' = Inr (PyInt 784) \<and>
   getitem (checkpoint m) ''output_size'' = Inr (PyInt 10) \<and>
   getitem (checkpoint m) ''hidden_layers'' = Inr (PyList (map out_features (hidden_layers m))) \<and>
   getitem (checkpoint m) ''state_dict'' = Inr (PyStateDict (state_dict m)) \<and>
   map fst (state_dict m) =
     concat (map (\<lambda>i. [''hidden_layers.'' @ string_of_nat i @ ''.weight'',
                        ''hidden_layers.'' @ string_of_nat i @ ''.bias''])
               [0..<length (hidden_layers m)])
       @ [''output.weight'', ''output.bias''] \<and>
   distinct (map fst (state_dict m)) \<and>
   map snd (state_dict m) =
     concat (map (\<lambda>l. [weight l, bias l]) (hidden_layers m))
       @ [weight (output_layer m), bias (output_layer m)]"
proof -
  have keys: "map fst (state_dict m) =
     concat (map (\<lambda>i. [''hidden_layers.'' @ string_of_nat i @ ''.weight'',
                        ''hidden_layers.'' @ string_of_nat i @ ''.bias''])
               [0..<length (hidden_layers m)])
       @ [''output.weight'', ''output.bias'']"
    by (simp add: state_dict_keys weight_key_def bias_key_def)
  have dict: "dict_keys (checkpoint m)
                = [''input_size'', ''output_size'', ''hidden_layers'', ''state_dict'']"
    by (simp add: checkpoint_def)
  have items: "getitem (checkpoint m) ''input_size'' = Inr (PyInt 784)"
    "getitem (checkpoint m) ''output_size'' = Inr (PyInt 10)"
    "getitem (checkpoint m) ''hidden_layers'' = Inr (PyList (map out_features (hidden_layers m)))"
    "getitem (checkpoint m) ''state_dict'' = Inr (PyStateDict (state_dict m))"
    by (simp_all add: checkpoint_def)
  show ?thesis
    using keys dict items state_dict_distinct [of m] state_dict_values [of m]
    by (simp only: simp_thms)
qed

section \<open>The shape of the models\<close>

lemma logits_model_width:
  "forward_width logits_model d = (if d = 784 then Some 10 else None)"
  by (simp add: logits_model_def)

lemma logsoftmax_model_width:
  "forward_width logsoftmax_model d = (if d = 784 then Some 10 else None)"
  by (simp add: logsoftmax_model_def)

lemma new_linear_module [simp]:
  "linear_module (new_linear init name i o') = Linear i o'"
  by (simp add: linear_module_def new_linear_def)

lemma forward_width_append:
  "forward_width (xs @ ys) d =
     (case forward_width xs d of None \<Rightarrow> None | Some d' \<Rightarrow> forward_width ys d')"
  by (induction xs arbitrary: d) (auto split: option.splits)

lemma new_hidden_width:
  "forward_width (concat (map (\<lambda>l. [linear_module l, Dropout p]) (new_hidden init i d hs))) e =
     (if hs = [] then Some e else if e = d then Some (last hs) else None)"
  by (induction hs arbitrary: i d e) auto

lemma new_hidden_dropouts:
  "filter is_dropout (concat (map (\<lambda>l. [linear_module l, Dropout p]) (new_hidden init i d hs)))
     = replicate (length hs) (Dropout p)"
  by (induction hs arbitrary: i d) auto

lemma new_hidden_modules:
  "concat (map (\<lambda>l. [linear_module l, Dropout p]) (new_hidden init k d hs))
     = concat (map (\<lambda>(a, b). [Linear a b, Dropout p]) (zip (d # hs) hs))"
  by (induction hs arbitrary: k d) simp_all

lemma Network_modules:
  "Network init input_size output_size hidden = Inr m \<Longrightarrow>
   network_modules m =
     concat (map (\<lambda>(a, b). [Linear a b, Dropout (1 / 2)]) (zip (input_size # hidden) hidden))
       @ [Linear (last hidden) output_size, LogSoftmax 1]"
  by (auto simp: Network_def network_modules_def new_hidden_modules split: if_splits)

lemma Network_objective:
  "Network init input_size output_size hidden = Inr m \<Longrightarrow>
   objective_matches (network_modules m) NLLLoss"
  by (auto simp: Network_def network_modules_def split: if_splits)

lemma Network_width:
  "Network init input_size output_size hidden = Inr m \<Longrightarrow>
   forward_width (network_modules m) d = (if d = input_size then Some output_size else None)"
  by (auto simp: Network_def network_modules_def forward_width_append new_hidden_width
      split: if_splits)

lemma Network_dropouts:
  "Network init input_size output_size hidden = Inr m \<Longrightarrow>
   filter is_dropout (network_modules m) = replicate (length hidden) (Dropout (1 / 2))"
  by (auto simp: Network_def network_modules_def new_hidden_dropouts split: if_splits)

lemma load_linear_module [simp]: "linear_module (load_linear sd name l) = linear_module l"
  by (simp add: linear_module_def load_linear_def)

lemma load_hidden_modules:
  "map linear_module (load_hidden sd i ls) = map linear_module ls"
  by (induction ls arbitrary: i) simp_all

lemma load_state_dict_modules:
  assumes "load_state_dict m0 sd = Inr m"
  shows "network_modules m = network_modules m0"
proof -
  have m: "m = m0\<lparr>hidden_layers := load_hidden sd 0 (hidden_layers m0),
                  output_layer := load_linear sd ''output'' (output_layer m0)\<rparr>"
    using assms by (auto simp: load_state_dict_def split: if_splits)
  have "map (\<lambda>l. [linear_module l, Dropout p]) ls
          = map (\<lambda>x. [x, Dropout p]) (map linear_module ls)" for p and ls :: "'a linear list"
    by simp
  then show ?thesis
    unfolding network_modules_def m by (simp add: load_hidden_modules del: map_map)
qed

lemma load_checkpoint_width:
  assumes "load_checkpoint init (torch_save fs (checkpoint m) path) path = Inr m'"
  shows "forward_width (network_modules m') d = (if d = 784 then Some 10 else None)"
proof -
  let ?built = "Network init 784 10 (map out_features (hidden_layers m))"
  have run: "and_then ?built (\<lambda>model. load_state_dict model (state_dict m)) = Inr m'"
    using assms by (simp add: load_saved_checkpoint)
  then obtain m0 where built: "?built = Inr m0" and loaded: "load_state_dict m0 (state_dict m) = Inr m'"
    by (cases ?built) simp_all
  show ?thesis
    using Network_width [OF built] load_state_dict_modules [OF loaded] by simp
qed

text \<open>
  C8. Every classifier the notebooks construct takes rows of 784 entries, and no other
  width, to rows of 10 entries: the \<^verbatim>\<open>nn.Sequential\<close> models of the training notebook
  (MNIST), the two \<^verbatim>\<open>fc_model.Network\<close> models of the saving notebook (FashionMNIST), and
  every model that \<^verbatim>\<open>load_checkpoint\<close> returns from a file written by the checkpoint
  cell.
\<close>

theorem models_take_784_to_10:
  "(\<forall>(ms, c) \<in> set training_notebook_models.
      forward_width ms d = (if d = 784 then Some 10 else None)) \<and>
   (\<forall>hidden \<in> set saving_notebook_hidden.
      \<exists>m :: 'a network. Network init 784 10 hidden = Inr m \<and>
        forward_width (network_modules m) d = (if d = 784 then Some 10 else None)) \<and>
   (\<forall>m' :: 'a network.
      load_checkpoint init (torch_save fs (checkpoint model) path) path = Inr m' \<longrightarrow>
        forward_width (network_modules m') d = (if d = 784 then Some 10 else None))"
proof (intro conjI)
  show "\<forall>(ms, c) \<in> set training_notebook_models.
      forward_width ms d = (if d = 784 then Some 10 else None)"
    by (simp add: training_notebook_models_def logits_model_width logsoftmax_model_width)
next
  show "\<forall>hidden \<in> set saving_notebook_hidden.
      \<exists>m :: 'a network. Network init 784 10 hidden = Inr m \<and>
        forward_width (network_modules m) d = (if d = 784 then Some 10 else None)"
  proof
    fix hidden assume "hidden \<in> set saving_notebook_hidden"
    then have "hidden \<noteq> []" by (auto simp: saving_notebook_hidden_def)
    then obtain m :: "'a network" where built: "Network init 784 10 hidden = Inr m"
      by (simp add: Network_def)
    then show "\<exists>m :: 'a network. Network init 784 10 hidden = Inr m \<and>
        forward_width (network_modules m) d = (if d = 784 then Some 10 else None)"
      using Network_width [OF built] by simp
  qed
next
  show "\<forall>m' :: 'a network.
      load_checkpoint init (torch_save fs (checkpoint model) path) path = Inr m' \<longrightarrow>
        forward_width (network_modules m') d = (if d = 784 then Some 10 else None)"
    using load_checkpoint_width by blast
qed

theorem models_take_784_to_10_witness:
  "(logsoftmax_model, NLLLoss) \<in> set training_notebook_models \<and>
   forward_width logsoftmax_model 784 = Some 10 \<and>
   forward_width logsoftmax_model 785 = None \<and>
   [400, 200, 100] \<in> set saving_notebook_hidden \<and>
   forward_width (network_modules (projr (Network zeros 784 10 [400, 200, 100]))) 784 = Some 10 \<and>
   load_checkpoint zeros
       (torch_save no_files (checkpoint (projr (Network ones 784 10 [3]))) ''checkpoint.pth'')
       ''checkpoint.pth''
     = Inr (projr (Network ones 784 10 [3])) \<and>
   forward_width (network_modules (projr (Network ones 784 10 [3]))) 784 = Some 10"
proof -
  have arch: "has_architecture 784 10 [3] (projr (Network ones 784 10 [3]))"
    by (simp add: Network_def has_architecture_def linear_ok_def new_linear_def)
  have loaded: "load_checkpoint zeros
       (torch_save no_files (checkpoint (projr (Network ones 784 10 [3]))) ''checkpoint.pth'')
       ''checkpoint.pth''
     = Inr (projr (Network ones 784 10 [3]))"
    using arch by (rule load_into_saved)
  have members: "(logsoftmax_model, NLLLoss) \<in> set training_notebook_models"
    "[400, 200, 100] \<in> set saving_notebook_hidden"
    by (simp_all add: training_notebook_models_def saving_notebook_hidden_def)
  have built: "Network zeros 784 10 [400, 200, 100]
                 = Inr (projr (Network zeros 784 10 [400, 200, 100]))"
    by (simp add: Network_def)
  show ?thesis
    using models_take_784_to_10 [of 784 zeros no_files "projr (Network ones 784 10 [3])" "''checkpoint.pth''"]
      models_take_784_to_10 [of 785 zeros no_files "projr (Network ones 784 10 [3])" "''checkpoint.pth''"]
      members loaded built
    by auto
qed

text \<open>
  C4, as stated, fails on the model that cell 29 of the training notebook trains: it has
  no dropout module.
\<close>

theorem dropout_between_layers_counterexample:
  "training_notebook_models ! 3 = (logsoftmax_model, NLLLoss) \<and>
   filter is_dropout logsoftmax_model = []"
  by (simp add: training_notebook_models_def logsoftmax_model_def)

text \<open>
  C4, as amended. Every network the notebooks construct is a chain of linear layers
  feeding a softmax-style objective. An \<^verbatim>\<open>nn.Sequential\<close> model of the training notebook
  is the chain of the linear layers 784-128, 128-64, 64-10 that takes rows of 784 entries
  to rows of 10; it has no dropout module, and it is paired with the loss that fits its
  output (\<^verbatim>\<open>nn.CrossEntropyLoss\<close> on the scores of the last linear layer,
  \<^verbatim>\<open>nn.NLLLoss\<close> on a final \<^verbatim>\<open>nn.LogSoftmax(dim=1)\<close>). A model built by
  \<^verbatim>\<open>fc_model.Network(input_size, output_size, hidden)\<close> applies each hidden linear layer
  followed by the dropout module of probability 0.5, then the output layer and the
  log-softmax of each row; it takes rows of \<open>input_size\<close> entries to rows of
  \<open>output_size\<close>, and its output fits the \<^verbatim>\<open>nn.NLLLoss\<close> that the saving notebook
  trains it against.
\<close>

theorem notebook_models_structure:
  "(\<forall>(ms, c) \<in> set training_notebook_models.
      filter is_linear ms = [Linear 784 128, Linear 128 64, Linear 64 10] \<and>
      forward_width ms 784 = Some 10 \<and>
      filter is_dropout ms = [] \<and>
      objective_matches ms c) \<and>
   (Network init input_size output_size hidden = Inr m \<longrightarrow>
      network_modules m =
        concat (map (\<lambda>(a, b). [Linear a b, Dropout (1 / 2)]) (zip (input_size # hidden) hidden))
          @ [Linear (last hidden) output_size, LogSoftmax 1] \<and>
      forward_width (network_modules m) input_size = Some output_size \<and>
      objective_matches (network_modules m) saving_notebook_criterion)"
proof (intro conjI impI)
  show "\<forall>(ms, c) \<in> set training_notebook_models.
      filter is_linear ms = [Linear 784 128, Linear 128 64, Linear 64 10] \<and>
      forward_width ms 784 = Some 10 \<and>
      filter is_dropout ms = [] \<and>
      objective_matches ms c"
    by (simp add: training_notebook_models_def logits_model_def logsoftmax_model_def)
next
  assume built: "Network init input_size output_size hidden = Inr m"
  show "network_modules m =
        concat (map (\<lambda>(a, b). [Linear a b, Dropout (1 / 2)]) (zip (input_size # hidden) hidden))
          @ [Linear (last hidden) output_size, LogSoftmax 1]"
    using built by (rule Network_modules)
  show "forward_width (network_modules m) input_size = Some output_size"
    using Network_width [OF built] by simp
  show "objective_matches (network_modules m) saving_notebook_criterion"
    using Network_objective [OF built] by (simp add: saving_notebook_criterion_def)
qed

text \<open>
  The model of cell 4 of the saving notebook: three hidden layers, each followed by the
  dropout module, the output layer and the log-softmax.
\<close>

theorem notebook_models_structure_witness:
  "(logits_model, CrossEntropyLoss) \<in> set training_notebook_models \<and>
   filter is_dropout logits_model = [] \<and>
   objective_matches logits_model CrossEntropyLoss \<and>
   Network zeros 784 10 [512, 256, 128] = Inr (projr (Network zeros 784 10 [512, 256, 128])) \<and>
   network_modules (projr (Network zeros 784 10 [512, 256, 128]))
     = [Linear 784 512, Dropout (1 / 2), Linear 512 256, Dropout (1 / 2),
        Linear 256 128, Dropout (1 / 2), Linear 128 10, LogSoftmax 1] \<and>
   objective_matches (network_modules (projr (Network zeros 784 10 [512, 256, 128]))) NLLLoss"
proof -
  have member: "(logits_model, CrossEntropyLoss) \<in> set training_notebook_models"
    by (simp add: training_notebook_models_def)
  have built: "Network zeros 784 10 [512, 256, 128]
                 = Inr (projr (Network zeros 784 10 [512, 256, 128]))"
    by (simp add: Network_def)
  show ?thesis
    using notebook_models_structure [of zeros 784 10 "[512, 256, 128]"
        "projr (Network zeros 784 10 [512, 256, 128])"] member built
    by (auto simp: saving_notebook_criterion_def)
qed

section \<open>The training loop\<close>

lemma batches_loop_step:
  "batches_loop fw acc (batch # rest) = batches_loop fw (spec_cycle fw acc batch) rest"
  by (cases acc, cases batch) (simp add: spec_cycle_def Let_def)

lemma batches_loop_foldl: "batches_loop fw acc batches = foldl (spec_cycle fw) acc batches"
proof (induction batches arbitrary: acc)
  case Nil
  show ?case by (cases acc) simp
next
  case (Cons batch rest)
  show ?case
    by (simp only: batches_loop_step Cons.IH foldl_Cons)
qed

lemma epochs_loop_step:
  assumes "0 < len trainloader" "length (iterate trainloader e) = len trainloader"
  shows "epochs_loop fw trainloader e (Suc n) st
           = epochs_loop fw trainloader (Suc e) n (spec_epoch fw (iterate trainloader e) st)"
  using assms
  by (simp add: batches_loop_foldl spec_epoch_def Let_def split: prod.splits)

lemma epochs_loop_foldl:
  assumes "0 < len trainloader"
  shows "(\<And>k. k < n \<Longrightarrow> length (iterate trainloader (e + k)) = len trainloader) \<Longrightarrow>
     epochs_loop fw trainloader e n st
       = Inr (foldl (\<lambda>st e. spec_epoch fw (iterate trainloader e) st) st [e..<e + n])"
proof (induction n arbitrary: e st)
  case 0
  show ?case by simp
next
  case (Suc n)
  have here: "length (iterate trainloader e) = len trainloader"
    using Suc.prems [of 0] by simp
  have later: "length (iterate trainloader (Suc e + k)) = len trainloader" if "k < n" for k
    using Suc.prems [of "Suc k"] that by simp
  have "[e..<e + Suc n] = e # [Suc e..<Suc e + n]"
    by (simp add: upt_rec)
  then show ?case
    by (simp only: epochs_loop_step [OF assms here] Suc.IH [OF later] foldl_Cons)
qed

lemma spec_cycle_printed: "printed (fst (spec_cycle fw acc batch)) = printed (fst acc)"
  by (simp add: spec_cycle_def Let_def optimizer_step_def backward_def zero_grad_def)

lemma foldl_spec_cycle_printed:
  "printed (fst (foldl (spec_cycle fw) acc batches)) = printed (fst acc)"
  by (induction batches arbitrary: acc) (simp_all add: spec_cycle_printed)

lemma spec_epoch_printed:
  "length (printed (spec_epoch fw batches st)) = Suc (length (printed st))"
  by (simp add: spec_epoch_def Let_def foldl_spec_cycle_printed)

lemma foldl_spec_epoch_printed:
  "length (printed (foldl (\<lambda>st e. spec_epoch fw (iterate trainloader e) st) st es))
     = length (printed st) + length es"
  by (induction es arbitrary: st) (simp_all add: spec_epoch_printed)

lemma view_rows_mnist:
  assumes "view_rows images = Inr flat" "shape images = [n, 1, 28, 28]"
  shows "shape flat = [n, 784]"
  using assms by (auto simp: view_rows_def split: if_splits)

text \<open>
  C3, as amended. In the training loop of cell 29 of the training notebook, when the
  loader yields its \<^verbatim>\<open>len(trainloader)\<close> minibatches in every epoch, at least one, and
  \<^verbatim>\<open>images.view(images.shape[0], -1)\<close> does not raise on them, the loop returns what the
  loop of the specification returns: in every epoch one cycle (zero the gradients,
  flatten the images, forward pass, loss, backward pass, optimizer step, add the loss to
  the running loss) for each minibatch, and after the last minibatch one report of the
  running loss divided by the number of minibatches; it prints one number for each
  epoch, and it flattens every minibatch of \<open>n\<close> images of one channel of 28 by 28 pixels
  to \<open>n\<close> rows of 784 entries.
\<close>

theorem training_loop_cycles:
  fixes fw :: "('p, 'a tensor, 'lab, 'out, 'loss, 'g::monoid_add, 'n) framework"
  assumes "0 < len trainloader"
    and "\<forall>e < epochs. length (iterate trainloader e) = len trainloader"
    and "\<forall>e < epochs. \<forall>(images, labels) \<in> set (iterate trainloader e).
           view_rows images = Inr (view fw images)"
  shows "train fw trainloader epochs st = Inr (spec_train fw trainloader epochs st) \<and>
         length (printed (spec_train fw trainloader epochs st)) = length (printed st) + epochs \<and>
         (\<forall>e < epochs. \<forall>(images, labels) \<in> set (iterate trainloader e).
            \<forall>n. shape images = [n, 1, 28, 28] \<longrightarrow> shape (view fw images) = [n, 784])"
proof (intro conjI)
  have "length (iterate trainloader (0 + k)) = len trainloader" if "k < epochs" for k
    using assms(2) that by simp
  from epochs_loop_foldl [OF assms(1) this]
  show "train fw trainloader epochs st = Inr (spec_train fw trainloader epochs st)"
    by (simp add: train_def spec_train_def)
  show "length (printed (spec_train fw trainloader epochs st)) = length (printed st) + epochs"
    by (simp add: spec_train_def foldl_spec_epoch_printed)
  show "\<forall>e < epochs. \<forall>(images, labels) \<in> set (iterate trainloader e).
            \<forall>n. shape images = [n, 1, 28, 28] \<longrightarrow> shape (view fw images) = [n, 784]"
    using assms(3) view_rows_mnist by fastforce
qed

lemma zero_grad_backward:
  fixes fw :: "('p, 'img, 'lab, 'out, 'loss, 'g::monoid_add, 'n) framework"
  shows "grad (backward fw loss (zero_grad fw st)) = Some (gradient fw loss)"
  by (cases "grad st") (simp_all add: backward_def zero_grad_def)

lemma spec_cycle_fresh:
  fixes fw :: "('p, 'img, 'lab, 'out, 'loss, 'g::monoid_add, 'n) framework"
  shows "spec_cycle fw acc batch = fresh_cycle fw acc batch"
proof -
  let ?loss = "criterion fw (forward fw (params (fst acc)) (view fw (fst batch))) (snd batch)"
  have p: "params (zero_grad fw (fst acc)) = params (fst acc)"
    by (simp add: zero_grad_def)
  have "optimizer_step fw (backward fw ?loss (zero_grad fw (fst acc)))
          = (fst acc)\<lparr>params := step fw (params (fst acc)) (Some (gradient fw ?loss)),
                      grad := Some (gradient fw ?loss)\<rparr>"
    using zero_grad_backward [of fw ?loss "fst acc"]
    by (simp add: optimizer_step_def backward_def zero_grad_def)
  then show ?thesis
    by (simp add: spec_cycle_def fresh_cycle_def Let_def p)
qed

text \<open>
  C7. The \<^verbatim>\<open>.grad\<close> of a new model is \<^verbatim>\<open>None\<close>; a backward pass adds the gradient of
  its loss to the \<^verbatim>\<open>.grad\<close> that is there; and the minibatch loop of cell 29, which
  zeroes the gradients before every backward pass, is the loop whose every optimizer step
  consumes the gradient of the loss of the current minibatch alone, whatever \<^verbatim>\<open>.grad\<close>
  held before and whether zeroing resets it to \<^verbatim>\<open>None\<close> or to zeros.
\<close>

theorem gradients_of_current_minibatch:
  fixes fw :: "('p, 'img, 'lab, 'out, 'loss, 'g::monoid_add, 'n) framework"
    and p :: 'p
  shows "grad (new_state p :: ('p, 'g, 'n) train_state) = None \<and>
         grad (backward fw loss st)
           = Some (case grad st of None \<Rightarrow> gradient fw loss | Some g \<Rightarrow> g + gradient fw loss) \<and>
         batches_loop fw acc batches = foldl (fresh_cycle fw) acc batches"
proof -
  have "spec_cycle fw = fresh_cycle fw"
    by (intro ext) (rule spec_cycle_fresh)
  then have "batches_loop fw acc batches = foldl (fresh_cycle fw) acc batches"
    by (simp add: batches_loop_foldl)
  then show ?thesis
    by (simp add: new_state_def backward_def)
qed

subsection \<open>The loop on the small instance\<close>

lemma toy_cycle:
  "fresh_cycle toy_framework (st, r) (x, y) =
     (st\<lparr>params := params st - 2 * (params st * x - y) * x,
         grad := Some (2 * (params st * x - y) * x)\<rparr>,
      r + of_int ((params st * x - y) * (params st * x - y)))"
  by (simp add: fresh_cycle_def toy_framework_def Let_def)

lemma toy_batches:
  "foldl (fresh_cycle toy_framework) (\<lparr>params = p, grad = g, printed = out\<rparr>, 0) [(1, 2), (2, 3)] =
     (\<lparr>params = p - 2 * (p - 2) - 2 * ((p - 2 * (p - 2)) * 2 - 3) * 2,
       grad = Some (2 * ((p - 2 * (p - 2)) * 2 - 3) * 2),
       printed = out\<rparr>,
      of_int ((p - 2) * (p - 2))
        + of_int (((p - 2 * (p - 2)) * 2 - 3) * ((p - 2 * (p - 2)) * 2 - 3)))"
  by (simp add: toy_cycle)

lemma toy_epoch:
  "spec_epoch toy_framework [(1, 2), (2, 3)] \<lparr>params = p, grad = g, printed = out\<rparr> =
     \<lparr>params = p - 2 * (p - 2) - 2 * ((p - 2 * (p - 2)) * 2 - 3) * 2,
      grad = Some (2 * ((p - 2 * (p - 2)) * 2 - 3) * 2),
      printed = out @ [(of_int ((p - 2) * (p - 2))
        + of_int (((p - 2 * (p - 2)) * 2 - 3) * ((p - 2 * (p - 2)) * 2 - 3))) / 2]\<rparr>"
proof -
  have "spec_cycle toy_framework = fresh_cycle toy_framework"
    by (intro ext) (rule spec_cycle_fresh)
  moreover have "num_zero toy_framework = 0" "num_div toy_framework a n = a / of_nat n" for a n
    by (simp_all add: toy_framework_def)
  ultimately show ?thesis
    by (simp add: spec_epoch_def Let_def toy_batches del: foldl_Cons)
qed

lemma toy_train:
  "spec_train toy_framework toy_loader 2 (new_state 1) =
     \<lparr>params = - 79, grad = Some 92, printed = [5, 325]\<rparr>"
proof -
  have "[0..<2] = [0, Suc 0]"
    by (simp add: upt_rec)
  then show ?thesis
    by (simp add: spec_train_def toy_loader_def new_state_def toy_epoch)
qed

lemma first_entry_pixel_batch: "first_entry \<lparr>shape = shp, entries = replicate 784 v\<rparr> = v"
proof -
  have "replicate 784 v = v # replicate 783 v"
    by (simp add: replicate_Suc [symmetric] del: replicate_Suc)
  then show ?thesis
    by (simp add: first_entry_def)
qed

lemma view_pixel_batch:
  "view_rows (pixel_batch v) = Inr \<lparr>shape = [1, 784], entries = replicate 784 v\<rparr>"
  "view image_framework (pixel_batch v) = \<lparr>shape = [1, 784], entries = replicate 784 v\<rparr>"
  by (simp_all add: view_rows_def pixel_batch_def image_framework_def)

lemma image_cycle:
  "fresh_cycle image_framework (st, r) (pixel_batch x, y) =
     fresh_cycle toy_framework (st, r) (x, y)"
  by (simp add: fresh_cycle_def Let_def view_pixel_batch(2) first_entry_pixel_batch)
     (simp add: image_framework_def toy_framework_def first_entry_pixel_batch)

lemma image_epoch:
  "spec_epoch image_framework [(pixel_batch 1, 2), (pixel_batch 2, 3)] st =
     spec_epoch toy_framework [(1, 2), (2, 3)] st"
proof -
  have "spec_cycle image_framework = fresh_cycle image_framework"
       "spec_cycle toy_framework = fresh_cycle toy_framework"
    by (intro ext, rule spec_cycle_fresh)+
  moreover have "num_zero image_framework = num_zero toy_framework"
    "num_div image_framework = num_div toy_framework"
    by (simp_all add: image_framework_def toy_framework_def)
  moreover have "foldl (fresh_cycle image_framework) (s, r) [(pixel_batch 1, 2), (pixel_batch 2, 3)]
      = foldl (fresh_cycle toy_framework) (s, r) [(1, 2), (2, 3)]" for s r
    by (cases "fresh_cycle toy_framework (s, r) (1, 2)") (simp add: image_cycle)
  ultimately show ?thesis
    by (simp add: spec_epoch_def Let_def del: foldl_Cons)
qed

lemma image_train:
  "spec_train image_framework image_loader 2 (new_state 1) =
     \<lparr>params = - 79, grad = Some 92, printed = [5, 325]\<rparr>"
proof -
  have "spec_train image_framework image_loader 2 st = spec_train toy_framework toy_loader 2 st"
    for st
    by (simp add: spec_train_def image_loader_def toy_loader_def image_epoch)
  then show ?thesis
    by (simp add: toy_train)
qed

text \<open>
  Two epochs on the two minibatches of one image each: the loop prints the mean losses 5
  and 325, and each image becomes one row of 784 entries.
\<close>

theorem training_loop_cycles_witness:
  "0 < len image_loader \<and>
   length (iterate image_loader 0) = len image_loader \<and>
   length (iterate image_loader 1) = len image_loader \<and>
   view_rows (pixel_batch 1) = Inr (view image_framework (pixel_batch 1)) \<and>
   view_rows (pixel_batch 2) = Inr (view image_framework (pixel_batch 2)) \<and>
   train image_framework image_loader 2 (new_state 1)
     = Inr \<lparr>params = - 79, grad = Some 92, printed = [5, 325]\<rparr> \<and>
   shape (pixel_batch 1) = [1, 1, 28, 28] \<and>
   shape (view image_framework (pixel_batch 1)) = [1, 784]"
proof -
  have pos: "0 < len image_loader"
    by (simp add: image_loader_def)
  have lens: "\<forall>e < 2. length (iterate image_loader e) = len image_loader"
    by (simp add: image_loader_def)
  have views: "\<forall>e < 2. \<forall>(images, labels) \<in> set (iterate image_loader e).
                 view_rows images = Inr (view image_framework images)"
    by (simp add: image_loader_def view_pixel_batch)
  have member: "(pixel_batch 1, 2) \<in> set (iterate image_loader 0)"
    by (simp add: image_loader_def)
  have shp: "shape (pixel_batch 1) = [1, 1, 28, 28]"
    by (simp add: pixel_batch_def)
  from training_loop_cycles [OF pos lens views, of "new_state 1"]
  have run: "train image_framework image_loader 2 (new_state 1)
               = Inr (spec_train image_framework image_loader 2 (new_state 1))"
    and flat: "\<forall>e < 2. \<forall>(images, labels) \<in> set (iterate image_loader e).
            \<forall>n. shape images = [n, 1, 28, 28] \<longrightarrow> shape (view image_framework images) = [n, 784]"
    by simp_all
  have "shape (view image_framework (pixel_batch 1)) = [1, 784]"
    using flat member shp by fastforce
  then show ?thesis
    using pos lens run shp by (simp add: image_train view_pixel_batch)
qed

text \<open>
  C3, as stated, fails twice. On a loader without minibatches the loop of cell 29 makes
  no report: the division by \<^verbatim>\<open>len(trainloader)\<close> raises. And \<^verbatim>\<open>fc_model.train\<close>, which the
  saving notebook calls for 2 epochs, does not report once after the last minibatch of an
  epoch: its recorded output has 23 reports in the first epoch and 46 in all.
\<close>

theorem training_loop_cycles_counterexample:
  "train toy_framework empty_loader 1 (new_state 1) = Inl ZeroDivisionError \<and>
   count_list fc_model_train_report_epochs 1 = 23 \<and>
   length fc_model_train_report_epochs = 46"
proof -
  have same: "count_list (replicate n x) x = n" for n and x :: nat
    by (induction n) simp_all
  have other: "x \<noteq> y \<Longrightarrow> count_list (replicate n x) y = 0" for n and x y :: nat
    by (induction n) simp_all
  show ?thesis
    by (simp add: train_def empty_loader_def fc_model_train_report_epochs_def same other)
qed

text \<open>
  Started with a stale \<^verbatim>\<open>.grad\<close> of 1000, the minibatch loop ends with the gradient 12 of
  its last minibatch and the weight that the two fresh gradients give.
\<close>

theorem gradients_of_current_minibatch_witness:
  "batches_loop toy_framework (\<lparr>params = 1, grad = Some 1000, printed = []\<rparr>, 0) [(1, 2), (2, 3)]
     = (\<lparr>params = - 9, grad = Some 12, printed = []\<rparr>, 10)"
  using gradients_of_current_minibatch
    [of 1 toy_framework "(0, 0)" "new_state 1"
        "(\<lparr>params = 1, grad = Some 1000, printed = []\<rparr>, 0)" "[(1, 2), (2, 3)]"]
  by (simp add: toy_batches del: foldl_Cons)

section \<open>Cross-entropy and negative log likelihood\<close>

lemma sum_exp_pos: "row \<noteq> [] \<Longrightarrow> 0 < sum_list (map exp (row :: real list))"
proof (induction row)
  case Nil
  then show ?case by simp
next
  case (Cons x row)
  have "0 \<le> sum_list (map exp row)"
    by (rule sum_list_nonneg) auto
  moreover have "0 < exp x" by simp
  ultimately have "0 < exp x + sum_list (map exp row)"
    by (rule add_pos_nonneg [rotated])
  then show ?case by simp
qed

lemma ln_softmax:
  assumes "y < length row"
  shows "ln (softmax row ! y) = log_softmax row ! y"
proof -
  have "row \<noteq> []" using assms by auto
  then have pos: "0 < sum_list (map exp row)" by (rule sum_exp_pos)
  have "ln (exp (row ! y) / sum_list (map exp row)) = row ! y - ln (sum_list (map exp row))"
    using pos by (simp add: ln_div)
  then show ?thesis
    using assms by (simp add: softmax_def log_softmax_def)
qed

lemma zip_log_softmax:
  "zip (map log_softmax rows) labels = map (\<lambda>(row, y). (log_softmax row, y)) (zip rows labels)"
  by (simp add: zip_map1)

lemma out_of_range_log_softmax:
  "list_ex (\<lambda>(row, y). length row \<le> y) (zip (map log_softmax rows) labels)
     = list_ex (\<lambda>(row, y). length row \<le> y) (zip rows labels)"
  by (simp add: zip_log_softmax list_ex_iff log_softmax_def split_beta)

lemma per_row_sum:
  assumes "\<not> list_ex (\<lambda>(row, y). length row \<le> y) (zip rows labels)"
  shows "sum_list (map (\<lambda>(row, y). - ln (softmax row ! y)) (zip rows labels))
       = sum_list (map (\<lambda>(row, y). - (row ! y)) (zip (map log_softmax rows) labels))"
proof -
  have "(\<lambda>(row, y). - ln (softmax row ! y)) p
          = ((\<lambda>(row, y). - (row ! y)) \<circ> (\<lambda>(row, y). (log_softmax row, y))) p"
    if "p \<in> set (zip rows labels)" for p
  proof -
    obtain row y where p: "p = (row, y)" by (cases p)
    have "y < length row"
      using assms that p by (auto simp: list_ex_iff)
    then show ?thesis
      by (simp add: p ln_softmax)
  qed
  then have "map (\<lambda>(row, y). - ln (softmax row ! y)) (zip rows labels)
           = map ((\<lambda>(row, y). - (row ! y)) \<circ> (\<lambda>(row, y). (log_softmax row, y)))
               (zip rows labels)"
    by (intro map_cong refl)
  then show ?thesis
    by (simp only: zip_log_softmax map_map)
qed

text \<open>
  C6. For every batch of scores and labels, \<^verbatim>\<open>nn.CrossEntropyLoss\<close> on the scores is
  \<^verbatim>\<open>nn.NLLLoss\<close> on the scores passed through \<^verbatim>\<open>nn.LogSoftmax(dim=1)\<close>: the same number
  over the reals, and the same error on a batch that either loss refuses.
\<close>

theorem cross_entropy_is_nll_of_log_softmax:
  "CrossEntropyLoss_forward scores labels = NLLLoss_forward (LogSoftmax_forward scores) labels"
proof (cases "length scores = length labels \<and>
              \<not> list_ex (\<lambda>(row, y). length row \<le> y) (zip scores labels)")
  case True
  then have "sum_list (map (\<lambda>(row, y). - ln (softmax row ! y)) (zip scores labels))
       = sum_list (map (\<lambda>(row, y). - (row ! y)) (zip (map log_softmax scores) labels))"
    by (simp add: per_row_sum)
  then show ?thesis
    using True
    by (simp add: CrossEntropyLoss_forward_def NLLLoss_forward_def LogSoftmax_forward_def
        mean_loss_def out_of_range_log_softmax)
next
  case False
  then show ?thesis
    by (auto simp: CrossEntropyLoss_forward_def NLLLoss_forward_def LogSoftmax_forward_def
        mean_loss_def out_of_range_log_softmax)
qed

text \<open>
  One row of two equal scores: both losses are the logarithm of 2. A label that is no index
  of its row: both raise.
\<close>

theorem cross_entropy_is_nll_of_log_softmax_witness:
  "CrossEntropyLoss_forward ([0, 0] # []) [0] = Inr (Loss (ln 2)) \<and>
   NLLLoss_forward (LogSoftmax_forward ([0, 0] # [])) [0] = Inr (Loss (ln 2)) \<and>
   CrossEntropyLoss_forward ([0, 0] # []) [2] = Inl IndexError \<and>
   NLLLoss_forward (LogSoftmax_forward ([0, 0] # [])) [2] = Inl IndexError"
proof -
  have nll: "NLLLoss_forward (LogSoftmax_forward ([0, 0] # [])) [0] = Inr (Loss (ln 2))"
    by (simp add: NLLLoss_forward_def LogSoftmax_forward_def mean_loss_def log_softmax_def)
  have err: "NLLLoss_forward (LogSoftmax_forward ([0, 0] # [])) [2] = Inl IndexError"
    by (simp add: NLLLoss_forward_def LogSoftmax_forward_def mean_loss_def log_softmax_def)
  show ?thesis
    using cross_entropy_is_nll_of_log_softmax [of "[0, 0] # []" "[0]"]
      cross_entropy_is_nll_of_log_softmax [of "[0, 0] # []" "[2]"] nll err
    by simp
qed

end
